theory Spec2Isabelle
  imports Complex_Main "HOL-Library.Sublist" "HOL-Library.Word" "HOL-Library.Multiset"
begin

section \<open>Process outcomes and Go string primitives\<close>

text \<open>
  A Go call either returns, or ends the whole process: \<open>log.Fatal\<close> and
  \<open>log.Fatalf\<close> exit with status 1, \<open>os.Exit\<close> with the given status, and a
  run-time panic (index or slice bounds out of range) that nobody recovers
  crashes the program.
\<close>

datatype 'a proc = Return 'a | Fatal string | Exit nat | Panic string

fun bindP :: "'a proc \<Rightarrow> ('a \<Rightarrow> 'b proc) \<Rightarrow> 'b proc" where
  "bindP (Return x) f = f x"
| "bindP (Fatal m) f = Fatal m"
| "bindP (Exit n) f = Exit n"
| "bindP (Panic m) f = Panic m"

text \<open>
  Go strings are byte strings; \<open>string\<close> is a list of bytes. \<open>strings.HasPrefix\<close>,
  \<open>strings.HasSuffix\<close>, \<open>strings.Contains\<close>, \<open>strings.Index\<close> and
  \<open>strings.LastIndex\<close> (\<open>-1\<close> when the substring does not occur).
\<close>

definition HasPrefix :: "string \<Rightarrow> string \<Rightarrow> bool" where
  "HasPrefix s p = prefix p s"

definition HasSuffix :: "string \<Rightarrow> string \<Rightarrow> bool" where
  "HasSuffix s p = suffix p s"

fun Contains :: "string \<Rightarrow> string \<Rightarrow> bool" where
  "Contains [] sub = (sub = [])"
| "Contains (c # s) sub = (prefix sub (c # s) \<or> Contains s sub)"

fun Index :: "string \<Rightarrow> string \<Rightarrow> int" where
  "Index [] sub = (if sub = [] then 0 else - 1)"
| "Index (c # s) sub =
     (if prefix sub (c # s) then 0
      else (let i = Index s sub in if i < 0 then - 1 else i + 1))"

fun LastIndex :: "string \<Rightarrow> string \<Rightarrow> int" where
  "LastIndex [] sub = (if sub = [] then 0 else - 1)"
| "LastIndex (c # s) sub =
     (let i = LastIndex s sub in
      if 0 \<le> i then i + 1 else if prefix sub (c # s) then 0 else - 1)"

text \<open>
  Splitting at every byte that satisfies \<open>P\<close>: \<open>strings.Split(s, " ")\<close> is
  \<open>Split\<close>, and \<open>regexp.MustCompile("[,=().0-9]").Split(s, -1)\<close> is
  \<open>splitBy\<close> with the character class. Empty pieces are kept.
\<close>

fun splitBy :: "(char \<Rightarrow> bool) \<Rightarrow> string \<Rightarrow> string list" where
  "splitBy P [] = [[]]"
| "splitBy P (c # s) =
     (if P c then [] # splitBy P s
      else (case splitBy P s of [] \<Rightarrow> [[c]] | w # ws \<Rightarrow> (c # w) # ws))"

definition Split :: "string \<Rightarrow> string list" where
  "Split s = splitBy (\<lambda>c. c = CHR '' '') s"

text \<open>
  A slice expression \<open>s[lo:hi]\<close> and an index expression \<open>xs[i]\<close> panic when
  out of range.
\<close>

definition slice :: "string \<Rightarrow> int \<Rightarrow> int \<Rightarrow> string proc" where
  "slice s lo hi =
     (if 0 \<le> lo \<and> lo \<le> hi \<and> hi \<le> int (length s)
      then Return (take (nat (hi - lo)) (drop (nat lo) s))
      else Panic ''slice bounds out of range'')"

definition index :: "'a list \<Rightarrow> int \<Rightarrow> 'a proc" where
  "index xs i =
     (if 0 \<le> i \<and> i < int (length xs) then Return (xs ! nat i)
      else Panic ''index out of range'')"

text \<open>\<open>strconv.Itoa\<close>, which is also what \<open>%v\<close> prints for an \<open>int\<close>.\<close>

definition digit :: "nat \<Rightarrow> char" where
  "digit d = ''0123456789'' ! d"

fun digits :: "nat \<Rightarrow> string" where
  "digits n = (if n < 10 then [digit n] else digits (n div 10) @ [digit (n mod 10)])"

definition Itoa :: "int \<Rightarrow> string" where
  "Itoa i = (if i < 0 then CHR ''-'' # digits (nat (- i)) else digits (nat i))"

section \<open>client/client\_http.go\<close>

text \<open>\<open>NextGameResponse\<close>, \<open>postParams\<close> and \<open>NextGame\<close> (lines 19-102).\<close>

record NextGameResponse =
  Type :: string
  TrainingId :: "64 word"
  NetworkId :: "64 word"
  Sha :: string
  CandidateSha :: string
  Params :: string
  Flip :: bool
  MatchGameId :: "64 word"
  KeepTime :: string
  BookUrl :: string
  BookSha :: string

text \<open>The zero value \<open>NextGameResponse{}\<close>.\<close>

definition zeroResponse :: NextGameResponse where
  "zeroResponse = \<lparr>Type = [], TrainingId = 0, NetworkId = 0, Sha = [], CandidateSha = [],
     Params = [], Flip = False, MatchGameId = 0, KeepTime = [], BookUrl = [], BookSha = []\<rparr>"

text \<open>
  What \<open>httpClient.Post\<close> gives \<open>postParams\<close>: a transport error, or a response
  whose body is read whole (the status code is not looked at).
\<close>

datatype http_post = PostErr string | PostBody string

text \<open>
  \<open>postParams\<close> with a non-nil target. \<open>json.Unmarshal\<close> is the standard
  library's: it is a parameter that maps the body and the target's old value to
  the target's new value and an optional error (a failed decode may have filled
  part of the target).
\<close>

definition postParams ::
  "(string \<Rightarrow> NextGameResponse \<Rightarrow> NextGameResponse \<times> string option) \<Rightarrow> http_post \<Rightarrow>
     NextGameResponse \<Rightarrow> (NextGameResponse \<times> string option) proc" where
  "postParams Unmarshal r target =
     (case r of
        PostErr e \<Rightarrow> Return (target, Some e)
      | PostBody b \<Rightarrow>
          (case Unmarshal b target of
             (target', None) \<Rightarrow> Return (target', None)
           | (target', Some e) \<Rightarrow>
               if Contains b '' upgrade '' then Exit 5 else Return (target', Some e)))"

definition NextGame ::
  "(string \<Rightarrow> NextGameResponse \<Rightarrow> NextGameResponse \<times> string option) \<Rightarrow> http_post \<Rightarrow>
     (NextGameResponse \<times> string option) proc" where
  "NextGame Unmarshal r =
     (case postParams Unmarshal r zeroResponse of
        Return (resp, err) \<Rightarrow>
          if length (Sha resp) = 0 then Return (resp, Some ''Server gave back empty SHA'')
          else Return (resp, err)
      | Fatal m \<Rightarrow> Fatal m
      | Exit n \<Rightarrow> Exit n
      | Panic m \<Rightarrow> Panic m)"

section \<open>lc0\_main.go: process-wide state\<close>

text \<open>
  The package-level variables that the backend selection reads and writes, and the
  command-line flags (set once by \<open>flag.Parse\<close>, never written afterwards).
\<close>

record globals =
  hasCudnn :: bool
  hasCudnnFp16 :: bool
  hasOpenCL :: bool
  hasBlas :: bool
  hasDx :: bool
  testedCudnnFp16 :: bool
  testedDxNet :: string
  gpuType :: string

record flags =
  backopts :: string
  gpu :: int
  lc0Args :: string
  parallel :: int
  report_gpu :: bool

text \<open>The initial values of the package-level variables.\<close>

definition initGlobals :: globals where
  "initGlobals = \<lparr>hasCudnn = False, hasCudnnFp16 = False, hasOpenCL = False, hasBlas = False,
     hasDx = False, testedCudnnFp16 = False, testedDxNet = [], gpuType = ''Unknown''\<rparr>"

text \<open>
  What lies outside the repository is a parameter: the standard library's
  \<open>strconv.ParseFloat\<close> and \<open>strconv.Atoi\<close> (the value they return and
  whether the error is nil; a \<open>float64\<close> is modelled by the real it denotes, and
  the bit size argument of \<open>ParseFloat\<close> is not modelled), and
  the chess package that \<open>convertMovesToPGN\<close> drives, over an abstract game
  type \<open>'g\<close>:
  \<^item> \<open>NewGame\<close>: \<open>chess.NewGame(chess.UseNotation(...))\<close>;
  \<^item> \<open>NewGameFEN fen\<close>: \<open>chess.FEN(fen)\<close> followed by \<open>chess.NewGame\<close> with that
    option and the tag pair (the error of \<open>chess.FEN\<close> is dropped by the source, so
    whatever the package does with a bad position happens inside this call);
  \<^item> \<open>MoveStr g m\<close>: \<open>game.MoveStr(m)\<close>, \<open>None\<close> when it returns an error;
  \<^item> \<open>ClaimDraw g\<close>: the \<open>Outcome\<close>/\<open>EligibleDraws\<close>/\<open>Draw\<close> step;
  \<^item> \<open>MarshalText g\<close>: \<open>game.MarshalText()\<close>, \<open>None\<close> on error;
  \<^item> \<open>Reparse b\<close>: \<open>game2.UnmarshalText(b)\<close> followed by \<open>game2.String()\<close>.
\<close>

record 'g extern =
  ParseFloat :: "string \<Rightarrow> real \<times> bool"
  Atoi :: "string \<Rightarrow> int \<times> bool"
  NewGame :: "'g"
  NewGameFEN :: "string \<Rightarrow> 'g proc"
  MoveStr :: "'g \<Rightarrow> string \<Rightarrow> 'g option"
  ClaimDraw :: "'g \<Rightarrow> 'g"
  MarshalText :: "'g \<Rightarrow> string option"
  Reparse :: "string \<Rightarrow> string"

subsection \<open>checkLc0\<close>

text \<open>
  Lines 288-314. \<open>checkLc0\<close> runs \<open>lc0 --help\<close>; \<open>out\<close> is its combined output, \<open>None\<close> when
  the command fails.
\<close>

definition checkLc0 :: "string option \<Rightarrow> globals \<Rightarrow> globals proc" where
  "checkLc0 out g =
     (case out of
        None \<Rightarrow> Fatal ''checkLc0''
      | Some out \<Rightarrow>
          (let g1 = (if Contains out ''blas'' then g\<lparr>hasBlas := True\<rparr> else g);
               g2 = (if Contains out ''dx12'' then g1\<lparr>hasDx := True\<rparr> else g1);
               g3 = (if Contains out ''cudnn-fp16'' then g2\<lparr>hasCudnnFp16 := True\<rparr> else g2);
               g4 = (if Contains out ''cudnn''
                     then (if hasCudnnFp16 g3 \<and> Index out ''cudnn'' = LastIndex out ''cudnn''
                           then g3\<lparr>hasCudnn := False\<rparr> else g3\<lparr>hasCudnn := True\<rparr>)
                     else g3);
               g5 = (if Contains out ''opencl'' then g4\<lparr>hasOpenCL := True\<rparr> else g4)
           in Return g5))"

subsection \<open>checkDx and launch\<close>

definition sGpu :: "flags \<Rightarrow> string" where
  "sGpu fl = (if 0 \<le> gpu fl then '',gpu='' @ Itoa (gpu fl) else [])"

text \<open>
  \<open>checkDx\<close> (lines 316-339): \<open>run\<close> gives the combined output of the engine started with the
  given arguments, \<open>None\<close> when the command fails.
\<close>

definition checkDx ::
  "(string list \<Rightarrow> string option) \<Rightarrow> flags \<Rightarrow> globals \<Rightarrow> string \<Rightarrow> string \<Rightarrow> unit proc" where
  "checkDx run fl g exe networkPath =
     (if \<not> hasBlas g then Fatal ''Dx12 backend cannot be validated''
      else (case run [exe, ''benchmark'', ''-w'', networkPath, ''--backend=check'',
                      ''--backend-opts=mode=check,freq=1.0,atol=5e-1,dx12'' @ sGpu fl,
                      ''--fen=rnbqkbnr/pppppppp/8/8/8/8/PPPPPPPP/RNBQKBNR w KQkq - 0 1''] of
              None \<Rightarrow> Fatal ''checkDx''
            | Some out \<Rightarrow>
                if Contains out ''*** ERROR check failed''
                then Fatal ''The dx12 backend failed the self check - try updating gpu drivers''
                else Return ()))"

text \<open>
  The backend branch of \<open>launch\<close> (lines 368-389): the \<open>--backend-opts\<close> argument appended to the
  command line (none when no branch fires) and the parallelism after it.
\<close>

definition backendArgs :: "flags \<Rightarrow> globals \<Rightarrow> (string list \<times> int) proc" where
  "backendArgs fl g =
     (if backopts fl \<noteq> [] then
        (if ''random'' \<in> set (splitBy (\<lambda>c. c \<in> set '',=().0123456789'') (backopts fl))
         then Fatal ''Not accepted in --backend-opts: random''
         else Return ([''--backend-opts='' @ backopts fl], parallel fl))
      else if hasCudnnFp16 g then
        Return ([''--backend-opts=backend=cudnn-fp16'' @ sGpu fl],
                if parallel fl \<le> 0 then 32 else parallel fl)
      else if hasCudnn g then
        Return ([''--backend-opts=backend=cudnn'' @ sGpu fl], parallel fl)
      else if hasDx g then
        Return ([''--backend-opts=check(freq=1e-5,atol=5e-1,dx12'' @ sGpu fl @ '')''], parallel fl)
      else if hasOpenCL g then
        Return ([''--backend-opts=backend=opencl'' @ sGpu fl], parallel fl)
      else Return ([], parallel fl))"

text \<open>
  \<open>launch\<close> (lines 341-529) up to \<open>c.Cmd.Start()\<close>: the argument vector of the subprocess and the
  globals afterwards. \<open>pipesOk\<close> says that \<open>StdoutPipe\<close>, \<open>StdinPipe\<close> and
  \<open>Start\<close> succeed (each failure is a \<open>log.Fatal\<close>). The reader goroutine that
  \<open>launch\<close> starts is \<open>parseLine\<close> below.
\<close>

definition launch ::
  "(string list \<Rightarrow> string option) \<Rightarrow> bool \<Rightarrow> flags \<Rightarrow> globals \<Rightarrow> string \<Rightarrow>
     string \<Rightarrow> string \<Rightarrow> string list \<Rightarrow> (string list \<times> globals) proc" where
  "launch run pipesOk fl g exe networkPath otherNetPath args =
     (case args of
        [] \<Rightarrow> Panic ''index out of range''
      | mode # rest \<Rightarrow>
          (let a1 = [exe, mode] @ (if mode \<noteq> ''selfplay'' then [''--backend=multiplexing''] else [])
                    @ (if lc0Args fl \<noteq> [] then Split (lc0Args fl) else [])
           in bindP (if \<not> hasCudnnFp16 g \<and> \<not> hasCudnn g \<and> hasDx g \<and> testedDxNet g \<noteq> networkPath
                     then bindP (checkDx run fl g exe networkPath)
                            (\<lambda>_. Return (g\<lparr>testedDxNet := networkPath\<rparr>))
                     else Return g)
                (\<lambda>g'. bindP (backendArgs fl g')
                   (\<lambda>(b, parallelism).
                      (let a2 = a1 @ b
                             @ (if 0 < parallelism \<and> mode = ''selfplay''
                                then [''--parallelism='' @ Itoa parallelism] else [])
                             @ rest
                             @ (if otherNetPath = [] then [''--weights='' @ networkPath]
                                else [''--player1.weights='' @ networkPath,
                                      ''--player2.weights='' @ otherNetPath, ''--no-share-trees''])
                       in if pipesOk then Return (a2, g') else Fatal ''launch'')))))"

section \<open>lc0\_main.go: the engine's output, line by line\<close>

record gameInfo =
  pgn :: string
  fname :: string
  fp_threshold :: real
  player1 :: string
  result :: string

definition Join :: "string list \<Rightarrow> string" where
  "Join xs = (case xs of [] \<Rightarrow> [] | x # r \<Rightarrow> x @ concat (map (\<lambda>y. CHR '' '' # y) r))"

definition TrimRight :: "string \<Rightarrow> char \<Rightarrow> string" where
  "TrimRight s c = rev (dropWhile (\<lambda>d. d = c) (rev s))"

text \<open>
  \<open>convertMovesToPGN\<close> (lines 237-276). The \<open>for _, m := range moves\<close> loop: the
  first move that fails is fatal.
\<close>

fun replay :: "'g extern \<Rightarrow> 'g \<Rightarrow> string list \<Rightarrow> 'g proc" where
  "replay X game [] = Return game"
| "replay X game (m # ms) =
     (case MoveStr X game m of
        None \<Rightarrow> Fatal ''movstr''
      | Some game' \<Rightarrow> replay X game' ms)"

definition convertMovesToPGN :: "'g extern \<Rightarrow> string list \<Rightarrow> string \<Rightarrow> int \<Rightarrow> string proc" where
  "convertMovesToPGN X moves res start_ply_count =
     (let n = length moves;
          from_fen = (6 < n \<and> moves ! (n - 7) = ''from_fen'')
      in bindP (if from_fen then NewGameFEN X (Join (drop (n - 6) moves)) else Return (NewGame X))
           (\<lambda>game0. bindP (replay X game0 (if from_fen then take (n - 7) moves else moves))
              (\<lambda>game1.
                 (case MarshalText X (ClaimDraw X game1) of
                    None \<Rightarrow> Fatal ''MarshalText failed''
                  | Some b_str \<Rightarrow>
                      (let b = (if HasSuffix b_str '' *'' \<and> res \<noteq> []
                                then TrimRight b_str (CHR ''*'')
                                       @ (if res = ''whitewon'' then ''1-0''
                                          else if res = ''blackwon'' then ''0-1''
                                          else ''1/2-1/2'')
                                else b_str)
                       in Return (Reparse X b @ '' {OL: '' @ Itoa start_ply_count @ ''}''))))))"

text \<open>
  What the reader goroutine emits: a value on the \<open>gi\<close>, \<open>BestMove\<close> or \<open>Retry\<close>
  channel, a line on standard output, or a log line (its format and argument).
\<close>

datatype event =
    EvGameInfo gameInfo
  | EvBestMove string
  | EvRetry
  | EvPrint string
  | EvLog string string

text \<open>
  The reader's own state: the local \<open>last_fp_threshold\<close> and the field
  \<open>c.Version\<close>.
\<close>

record reader =
  last_fp_threshold :: real
  Version :: string

definition initReader :: reader where
  "initReader = \<lparr>last_fp_threshold = - 1, Version = ''v0.10.0''\<rparr>"

text \<open>
  The index loop of the \<open>resign_report\<close> case: one past the last argument equal to
  \<open>fp_threshold\<close>, or \<open>-1\<close>.
\<close>

definition fpThresholdIdx :: "string list \<Rightarrow> int" where
  "fpThresholdIdx args =
     foldl (\<lambda>acc (idx, arg). if arg = ''fp_threshold'' then int idx + 1 else acc) (- 1)
       (enumerate 0 args)"

definition parseResignReport :: "'g extern \<Rightarrow> reader \<Rightarrow> string \<Rightarrow> (reader \<times> event list) proc" where
  "parseResignReport X rd line =
     (let args = Split line; fp_threshold_idx = fpThresholdIdx args in
      if 0 \<le> fp_threshold_idx then
        bindP (index args fp_threshold_idx)
          (\<lambda>a. case ParseFloat X a of
                  (v, True) \<Rightarrow> Return (rd\<lparr>last_fp_threshold := v\<rparr>, [EvPrint line])
                | (v, False) \<Rightarrow>
                    Return (rd\<lparr>last_fp_threshold := - 1\<rparr>,
                            [EvLog ''Malformed resign_report: %q'' line, EvPrint line]))
      else Return (rd, [EvPrint line]))"

definition parseGameReady :: "'g extern \<Rightarrow> reader \<Rightarrow> string \<Rightarrow> (reader \<times> event list) proc" where
  "parseGameReady X rd line =
     (let idx1 = Index line ''trainingfile'';
          idx2 = LastIndex line ''gameid'';
          idx3 = LastIndex line ''moves''
      in if idx1 < 0 \<or> idx2 < 0 \<or> idx3 < 0
         then Return (rd, [EvLog ''Malformed gameready: %q'' line])
         else
           (let idx4 = LastIndex line ''player1'';
                idx5 = LastIndex line ''result'';
                idx6 = LastIndex line ''play_start_ply''
            in bindP (if idx5 < 0 then Return (idx3, [])
                      else bindP (slice line (idx5 + 7) (idx3 - 1)) (\<lambda>r. Return (idx5, r)))
                 (\<lambda>(idx5', res).
                    bindP (if 0 \<le> idx4 then slice line (idx4 + 8) (idx5' - 1) else Return [])
                      (\<lambda>player.
                         bindP (if 0 \<le> idx6
                                then bindP (slice line (idx6 + 15) (idx4 - 1))
                                       (\<lambda>t. Return (fst (Atoi X t)))
                                else Return (- 1))
                           (\<lambda>start_ply_count.
                              bindP (slice line (idx1 + 13) (idx2 - 1))
                                (\<lambda>file.
                                   bindP (slice line (idx3 + 6) (int (length line)))
                                     (\<lambda>mv.
                                        bindP (convertMovesToPGN X (Split mv) res start_ply_count)
                                          (\<lambda>pgnText.
                                             Return (rd\<lparr>last_fp_threshold := - 1\<rparr>,
                                                     [EvPrint (''PGN: '' @ pgnText),
                                                      EvGameInfo \<lparr>pgn = pgnText, fname = file,
                                                        fp_threshold = last_fp_threshold rd,
                                                        player1 = player, result = res\<rparr>])))))))))"


definition fp16Unsupported :: string where
  "fp16Unsupported = ''Your GPU doesn't support FP16''"

text \<open>
  One iteration of the \<open>for stdoutScanner.Scan()\<close> loop (lines 420-518): the
  \<open>switch\<close> on the line, whose first matching case is taken.
\<close>

definition parseLine ::
  "'g extern \<Rightarrow> flags \<Rightarrow> globals \<times> reader \<Rightarrow> string \<Rightarrow> ((globals \<times> reader) \<times> event list) proc" where
  "parseLine X fl s line =
     (let g = fst s; rd = snd s in
      if HasPrefix line ''Unknown command line flag''
      then Fatal ''You probably have an old lc0 version''
      else if Contains line fp16Unsupported then
        (if backopts fl = []
         then Return ((g\<lparr>hasCudnnFp16 := False\<rparr>, rd),
                      [EvLog ''GPU doesn't support the cudnn-fp16 backend'' [], EvRetry])
         else Fatal ''Terminating'')
      else if HasPrefix line ''resign_report '' then
        bindP (parseResignReport X rd line) (\<lambda>(rd', evs). Return ((g, rd'), evs))
      else if HasPrefix line ''gameready '' then
        bindP (parseGameReady X rd line) (\<lambda>(rd', evs). Return ((g, rd'), evs))
      else if HasPrefix line ''bestmove '' then
        bindP (index (Split line) 1)
          (\<lambda>m. Return ((g\<lparr>testedCudnnFp16 := True\<rparr>, rd), [EvBestMove m]))
      else if HasPrefix line ''id name Lc0 '' then
        bindP (index (Split line) 3)
          (\<lambda>v. Return ((g, rd\<lparr>Version := v\<rparr>), [EvPrint line]))
      else if HasPrefix line ''info'' then
        Return ((g\<lparr>testedCudnnFp16 := True\<rparr>, rd), [])
      else if HasPrefix line ''GPU: '' then
        Return ((if report_gpu fl \<and> backopts fl = []
                 then g\<lparr>gpuType := drop (length ''GPU: '') line\<rparr> else g, rd), [EvPrint line])
      else if HasPrefix line ''Selected device: '' then
        Return ((if report_gpu fl \<and> backopts fl = []
                 then g\<lparr>gpuType := drop (length ''Selected device: '') line\<rparr> else g, rd),
                [EvPrint line])
      else if HasPrefix line ''BLAS'' then
        Return ((if report_gpu fl \<and> backopts fl = [] then g\<lparr>gpuType := ''None''\<rparr> else g, rd),
                [EvPrint line])
      else if HasPrefix line ''*** ERROR check failed''
      then Fatal ''The dx12 backend failed the self check - try updating gpu drivers''
      else if HasPrefix line ''GPU compute capability:'' then
        bindP (index (Split line) 3)
          (\<lambda>a. Return ((if 7 \<le> fst (ParseFloat X a) then g\<lparr>testedCudnnFp16 := True\<rparr> else g, rd),
                        [EvPrint line]))
      else Return ((g, rd), [EvPrint line]))"


text \<open>The values sent on the \<open>gi\<close> channel, in order.\<close>

fun games :: "event list \<Rightarrow> gameInfo list" where
  "games [] = []"
| "games (EvGameInfo gi # evs) = gi # games evs"
| "games (_ # evs) = games evs"

section \<open>lc0\_main.go: uploadGame\<close>

text \<open>
  Lines 145-206. What one pass through the body of the retry loop meets, in the order the source
  tests it: \<open>client.BuildUploadRequest\<close> fails; \<open>httpClient.Do\<close> fails; reading
  the response body fails; or a response with its status code and body.
\<close>

datatype attempt =
    BuildErr string
  | DoErr string
  | ReadErr string
  | Response nat string

text \<open>
  What \<open>uploadGame\<close> does that can be observed: a request handed to
  \<open>httpClient.Do\<close> (with the value of \<open>retryCount\<close>), a \<open>time.Sleep\<close> (its
  duration in nanoseconds), \<open>totalGames++\<close>, and \<open>os.Remove(path)\<close>.
\<close>

datatype upload_event =
    UpRequest nat
  | UpSleep int
  | UpCounted
  | UpRemove string

text \<open>
  \<open>time.Second * (2 << retryCount)\<close>. The counter is at most 3 where this is
  evaluated, so the \<open>int64\<close> duration does not overflow.
\<close>

definition backoff :: "32 word \<Rightarrow> int" where
  "backoff retryCount = 1000000000 * push_bit (unat retryCount) 2"

text \<open>
  The \<open>for\<close> loop of \<open>uploadGame\<close>, entered with the current \<open>retryCount\<close> (a
  \<open>uint32\<close>); \<open>env n\<close> is what the \<open>n\<close>-th pass meets. The result is the
  events so far and how the function ends: \<open>Return None\<close> is \<open>nil\<close>.
\<close>

function uploadLoop ::
  "(nat \<Rightarrow> attempt) \<Rightarrow> string \<Rightarrow> 32 word \<Rightarrow> upload_event list \<times> string option proc" where
  "uploadLoop env path retryCount =
     (let rc = retryCount + 1 in
      if 3 < rc then ([], Return (Some ''UploadGame failed: Too many retries''))
      else (case env (unat rc) of
              BuildErr e \<Rightarrow> ([], Return (Some e))
            | DoErr e \<Rightarrow> ([UpRequest (unat rc)], Return (Some e))
            | ReadErr e \<Rightarrow>
                (let (evs, r) = uploadLoop env path rc
                 in (UpRequest (unat rc) # UpSleep (backoff rc) # evs, r))
            | Response status body \<Rightarrow>
                if status \<noteq> 200 \<and> Contains body '' upgrade ''
                then ([UpRequest (unat rc)], Fatal ''You probably need the latest release'')
                else ([UpRequest (unat rc), UpCounted, UpRemove path], Return None)))"
  by pat_completeness auto
termination
proof (relation "measure (\<lambda>(env, path, rc). unat (3 - rc))")
  show "wf (measure (\<lambda>(env, path, rc). unat (3 - rc)))" by simp
next
  fix env :: "nat \<Rightarrow> attempt" and path :: string and retryCount rc :: "32 word" and x3 :: string
  assume rc: "rc = retryCount + 1" and le: "\<not> 3 < rc"
  have le3: "rc \<le> 3" using le by simp
  then have le4: "rc \<le> 4" by (rule order_trans) simp
  have u: "unat rc \<le> 3" using le3 by (simp add: word_le_nat_alt)
  have a: "unat (3 - rc) = 3 - unat rc" using le3 by (simp add: unat_sub)
  have b: "unat (4 - rc) = 4 - unat rc" using le4 by (simp add: unat_sub)
  have c: "3 - retryCount = 4 - rc" unfolding rc by simp
  have "unat (3 - rc) < unat (3 - retryCount)" unfolding c a b using u by simp
  then show "((env, path, rc), env, path, retryCount) \<in> measure (\<lambda>(env, path, rc). unat (3 - rc))"
    by simp
qed

declare uploadLoop.simps [simp del]

definition uploadGame :: "(nat \<Rightarrow> attempt) \<Rightarrow> string \<Rightarrow> upload_event list \<times> string option proc" where
  "uploadGame env path = uploadLoop env path 0"

definition requests :: "upload_event list \<Rightarrow> nat list" where
  "requests evs = concat (map (\<lambda>e. case e of UpRequest n \<Rightarrow> [n] | _ \<Rightarrow> []) evs)"

definition sleeps :: "upload_event list \<Rightarrow> int list" where
  "sleeps evs = concat (map (\<lambda>e. case e of UpSleep d \<Rightarrow> [d] | _ \<Rightarrow> []) evs)"

text \<open>
  The events of the passes before pass \<open>n\<close> when each of them failed to read the
  response body: a request and the sleep that follows it.
\<close>

definition retried :: "nat \<Rightarrow> upload_event list" where
  "retried n = concat (map (\<lambda>k. [UpRequest k, UpSleep (backoff (of_nat k))]) [1..<n])"

section \<open>lc0\_main.go: the match uploader of playMatch\<close>

definition resultToNum :: "string \<Rightarrow> int" where
  "resultToNum r = (if r = ''whitewon'' then 1 else if r = ''blackwon'' then - 1 else 0)"

text \<open>
  One call of \<open>client.UploadMatchResult\<close>: the slot \<open>curng\<close> whose
  \<open>MatchGameId\<close> is sent, the game \<open>nextgi\<close> whose \<open>pgn\<close> is sent, and the
  number sent as the result.
\<close>

record match_upload =
  up_slot :: NextGameResponse
  up_game :: gameInfo
  up_result :: int

text \<open>
  The locals of the uploader goroutine. \<open>calls\<close> counts the calls of
  \<open>client.NextGame\<close> made so far, and \<open>pendingNextGame\<close> is the variable of
  \<open>playMatch\<close> that the goroutine writes.
\<close>

record uploader =
  curng :: "NextGameResponse option"
  flipped :: "gameInfo list"
  normal :: "gameInfo list"
  errCount :: int
  calls :: nat
  pendingNextGame :: "NextGameResponse option"

definition initUploader :: "NextGameResponse \<Rightarrow> uploader" where
  "initUploader ngr = \<lparr>curng = Some ngr, flipped = [], normal = [], errCount = 0, calls = 0,
     pendingNextGame = None\<rparr>"

text \<open>The bucket a received game is appended to.\<close>

definition addGame :: "gameInfo \<Rightarrow> uploader \<Rightarrow> uploader" where
  "addGame gi s =
     (if player1 gi = ''black'' then s\<lparr>flipped := flipped s @ [gi]\<rparr>
      else s\<lparr>normal := normal s @ [gi]\<rparr>)"

text \<open>The \<open>if curng != nil\<close> block at the head of the inner loop (lines 595-617).\<close>

definition pairStep :: "uploader \<Rightarrow> match_upload list \<times> uploader" where
  "pairStep s =
     (case curng s of
        None \<Rightarrow> ([], s)
      | Some c \<Rightarrow>
          if Flip c \<and> 0 < length (flipped s) then
            (let l = length (flipped s); nextgi = flipped s ! (l - 1)
             in ([\<lparr>up_slot = c, up_game = nextgi, up_result = - resultToNum (result nextgi)\<rparr>],
                 s\<lparr>flipped := take (l - 1) (flipped s), curng := None\<rparr>))
          else if \<not> Flip c \<and> 0 < length (normal s) then
            (let l = length (normal s); nextgi = normal s ! (l - 1)
             in ([\<lparr>up_slot = c, up_game = nextgi, up_result = resultToNum (result nextgi)\<rparr>],
                 s\<lparr>normal := take (l - 1) (normal s), curng := None\<rparr>))
          else ([], s))"

text \<open>
  The inner \<open>for true\<close> loop (lines 594-637). \<open>posts n\<close> is what the server answers to the
  \<open>n\<close>-th call of \<open>client.NextGame\<close>. The result holds the uploads made and
  whether the goroutine returned (\<open>True\<close>) or the loop was left by \<open>break\<close>.
\<close>

function matchLoop ::
  "(string \<Rightarrow> NextGameResponse \<Rightarrow> NextGameResponse \<times> string option) \<Rightarrow> (nat \<Rightarrow> http_post) \<Rightarrow>
     NextGameResponse \<Rightarrow> uploader \<Rightarrow> (uploader \<times> match_upload list \<times> bool) proc" where
  "matchLoop U posts ngr s =
     (let ups = fst (pairStep s); s1 = snd (pairStep s) in
      if curng s1 \<noteq> None then Return (s1, ups, False)
      else
        (case NextGame U (posts (calls s1)) of
           Return (ng, Some e) \<Rightarrow>
             (let s2 = s1\<lparr>errCount := errCount s1 + 1, calls := calls s1 + 1\<rparr>
              in Return (s2, ups, \<not> errCount s2 < 10))
         | Return (ng, None) \<Rightarrow>
             if Type ng \<noteq> Type ngr \<or> Sha ng \<noteq> Sha ngr \<or> CandidateSha ng \<noteq> CandidateSha ngr
             then Return (s1\<lparr>calls := calls s1 + 1, pendingNextGame := Some ng\<rparr>, ups, True)
             else bindP (matchLoop U posts ngr
                           (s1\<lparr>curng := Some ng, errCount := 0, calls := calls s1 + 1\<rparr>))
                    (\<lambda>(s', ups', returned). Return (s', ups @ ups', returned))
         | Fatal m \<Rightarrow> Fatal m
         | Exit n \<Rightarrow> Exit n
         | Panic m \<Rightarrow> Panic m))"
  by pat_completeness auto
termination
proof (relation "measure (\<lambda>(U, posts, ngr, s).
          2 * (length (flipped s) + length (normal s)) + (if curng s = None then 1 else 0))",
       goal_cases)
  case 1
  show ?case by simp
next
  case (2 U posts ngr s ups s1 x1 ng e)
  then show ?case
    by (auto simp: pairStep_def Let_def split: option.splits if_splits)
qed

text \<open>The \<open>case gi := <-gameInfoCh\<close> branch of the goroutine.\<close>

definition onGameInfo ::
  "(string \<Rightarrow> NextGameResponse \<Rightarrow> NextGameResponse \<times> string option) \<Rightarrow> (nat \<Rightarrow> http_post) \<Rightarrow>
     NextGameResponse \<Rightarrow> uploader \<Rightarrow> gameInfo \<Rightarrow> (uploader \<times> match_upload list \<times> bool) proc" where
  "onGameInfo U posts ngr s gi = matchLoop U posts ngr (addGame gi s)"

text \<open>The goroutine over the games it receives, until it returns.\<close>

fun uploaderRun ::
  "(string \<Rightarrow> NextGameResponse \<Rightarrow> NextGameResponse \<times> string option) \<Rightarrow> (nat \<Rightarrow> http_post) \<Rightarrow>
     NextGameResponse \<Rightarrow> uploader \<Rightarrow> gameInfo list \<Rightarrow> (uploader \<times> match_upload list) proc" where
  "uploaderRun U posts ngr s [] = Return (s, [])"
| "uploaderRun U posts ngr s (gi # gis) =
     bindP (onGameInfo U posts ngr s gi)
       (\<lambda>(s', ups, returned).
          if returned then Return (s', ups)
          else bindP (uploaderRun U posts ngr s' gis) (\<lambda>(s'', ups'). Return (s'', ups @ ups')))"

text \<open>
  The main loop of \<open>playMatch\<close> starts one goroutine for every game it receives on
  \<open>c.gi\<close> (lines 674-681); the goroutine hands its game to the uploader over
  \<open>gameInfoCh\<close>, or gives up once \<open>doneCh\<close> is closed. A step of a run is a game
  completing (the engine reports it, its goroutine starts and waits to send), or the
  uploader receiving from one of the waiting goroutines, given by its position among
  those waiting. \<open>deliveries\<close> is the sequence of games in the order in which the
  uploader receives them; \<open>waiting\<close> holds the games of the waiting goroutines in the
  order in which they were started. \<open>completed\<close> is the sequence of games in the
  order in which they completed.
\<close>

datatype match_step = Completed gameInfo | Delivered nat

fun deliveries :: "match_step list \<Rightarrow> gameInfo list \<Rightarrow> gameInfo list" where
  "deliveries [] waiting = []"
| "deliveries (Completed gi # steps) waiting = deliveries steps (waiting @ [gi])"
| "deliveries (Delivered k # steps) waiting =
     (if k < length waiting
      then waiting ! k # deliveries steps (take k waiting @ drop (Suc k) waiting)
      else deliveries steps waiting)"

definition completed :: "match_step list \<Rightarrow> gameInfo list" where
  "completed steps = concat (map (\<lambda>st. case st of Completed gi \<Rightarrow> [gi] | Delivered k \<Rightarrow> []) steps)"

text \<open>The runs in which the goroutines get through in the order in which they were started.\<close>

definition inOrder :: "match_step list \<Rightarrow> bool" where
  "inOrder steps = list_all (\<lambda>st. case st of Completed gi \<Rightarrow> True | Delivered k \<Rightarrow> k = 0) steps"

text \<open>
  How \<open>nextGame\<close> (lines 938-950) obtains its task: the pending one if there is
  one, which it clears, and otherwise the answer of \<open>client.NextGame\<close>, unless that
  is an error. The result is the pending task afterwards and the error or the task.
\<close>

definition fetchTask ::
  "(string \<Rightarrow> NextGameResponse \<Rightarrow> NextGameResponse \<times> string option) \<Rightarrow> http_post \<Rightarrow>
     NextGameResponse option \<Rightarrow> (NextGameResponse option \<times> (string + NextGameResponse)) proc" where
  "fetchTask U r pending =
     (case pending of
        Some ng \<Rightarrow> Return (None, Inr ng)
      | None \<Rightarrow>
          bindP (NextGame U r)
            (\<lambda>(ng, err). case err of Some e \<Rightarrow> Return (None, Inl e) | None \<Rightarrow> Return (None, Inr ng)))"

section \<open>lc0\_main.go: the network cache\<close>

datatype cache_error =
    StatErr
  | GzipErr
  | ReadAllErr
  | ShaMismatch string string
  | ErrBusy
  | DownloadErr string
  | ReadDirErr
  | RemoveErr string

text \<open>
  A directory entry as \<open>removeAllExcept\<close> sees it: \<open>file.Name()\<close>, and the value
  of \<open>time.Since(file.ModTime())\<close> when the loop reaches the entry, in nanoseconds.
\<close>

record dirent =
  Name :: string
  Age :: int

datatype lock_result = NewFailed | Acquired | Busy | LockFailed

datatype download_result = DownloadFailed string | Downloaded string

text \<open>
  What the cache code meets outside the repository: \<open>time.ParseDuration\<close> (the
  duration in nanoseconds, 0 on error, since the error is dropped), the listing
  \<open>ioutil.ReadDir\<close> returns (\<open>None\<close> on error), whether \<open>os.RemoveAll\<close> fails for
  an entry, the gzip reader (\<open>None\<close> when \<open>gzip.NewReader\<close> fails, otherwise the
  bytes \<open>ioutil.ReadAll\<close> returned and whether its error was nil), the hex form of
  \<open>sha256.Sum256\<close>, the result of \<open>lockfile.New\<close> and \<open>TryLock\<close>, and the result
  of \<open>client.DownloadNetwork\<close> (the bytes it renamed into place, or its error).
\<close>

record cache_env =
  ParseDuration :: "string \<Rightarrow> int"
  ReadDir :: "dirent list option"
  RemoveAllFails :: "string \<Rightarrow> bool"
  gunzip :: "string \<Rightarrow> (string \<times> bool) option"
  sha256hex :: "string \<Rightarrow> string"
  TryLock :: lock_result
  Download :: download_result

text \<open>
  The files of the machine: a map from path to content. \<open>cachePath\<close> is
  \<open>filepath.Join("client-cache", sha)\<close> for an identifier that is a plain file
  name.
\<close>

type_synonym filesys = "string \<rightharpoonup> string"

definition cachePath :: "string \<Rightarrow> string" where
  "cachePath sha = ''client-cache'' @ ''/'' @ sha"

text \<open>
  \<open>checkValidNetwork\<close> (lines 780-807). The error of \<open>os.Remove\<close> is dropped by
  the source; the removal is taken to succeed. A digest mismatch replaces a read
  error, as in the source, where the comparison comes after \<open>ioutil.ReadAll\<close>.
\<close>

definition checkValidNetwork ::
  "cache_env \<Rightarrow> filesys \<Rightarrow> string \<Rightarrow> filesys \<times> string \<times> cache_error option" where
  "checkValidNetwork E fs sha =
     (let path = cachePath sha in
      case fs path of
        None \<Rightarrow> (fs, path, Some StatErr)
      | Some content \<Rightarrow>
          (case gunzip E content of
             None \<Rightarrow> (fs(path := None), path, Some GzipErr)
           | Some (bytes, readOk) \<Rightarrow>
               (let got = sha256hex E bytes in
                if sha \<noteq> got then (fs(path := None), path, Some (ShaMismatch sha got))
                else if \<not> readOk then (fs(path := None), path, Some ReadAllErr)
                else (fs, path, None))))"

text \<open>
  The loop of \<open>removeAllExcept\<close> (lines 809-829): the entries it removed, and the error it
  returned.
\<close>

fun removeLoop ::
  "cache_env \<Rightarrow> string \<Rightarrow> string \<Rightarrow> dirent list \<Rightarrow> dirent list \<times> cache_error option" where
  "removeLoop E sha keepTime [] = ([], None)"
| "removeLoop E sha keepTime (file # files) =
     (if Name file = sha then removeLoop E sha keepTime files
      else if Age file < ParseDuration E keepTime then removeLoop E sha keepTime files
      else if RemoveAllFails E (Name file) then ([], Some (RemoveErr (Name file)))
      else (let (removed, err) = removeLoop E sha keepTime files in (file # removed, err)))"

definition removeAllExcept ::
  "cache_env \<Rightarrow> string \<Rightarrow> string \<Rightarrow> dirent list \<times> cache_error option" where
  "removeAllExcept E sha keepTime =
     (case ReadDir E of
        None \<Rightarrow> ([], Some ReadDirErr)
      | Some files \<Rightarrow> removeLoop E sha keepTime files)"

definition inf :: string where
  "inf = ''inf''"

definition unlink :: "filesys \<Rightarrow> dirent list \<Rightarrow> filesys" where
  "unlink fs removed = (\<lambda>p. if p \<in> set (map (\<lambda>f. cachePath (Name f)) removed) then None else fs p)"

text \<open>
  \<open>getNetwork\<close> (lines 843-879), with \<open>acquireLock\<close> (lines 831-841) and
  \<open>client.DownloadNetwork\<close>: the files afterwards, the number of download requests issued,
  and what is returned.
\<close>

definition getNetwork ::
  "cache_env \<Rightarrow> filesys \<Rightarrow> string \<Rightarrow> string \<Rightarrow> filesys \<times> nat \<times> (string \<times> cache_error option) proc" where
  "getNetwork E fs sha keepTime =
     (let fs1 = (if keepTime \<noteq> inf then unlink fs (fst (removeAllExcept E sha keepTime)) else fs);
          (fs2, path, err) = checkValidNetwork E fs1 sha
      in if err = None then (fs2, 0, Return (path, None))
         else (case TryLock E of
                 NewFailed \<Rightarrow> (fs2, 0, Fatal ''Cannot init lockfile'')
               | LockFailed \<Rightarrow> (fs2, 0, Fatal ''Unable to lock'')
               | Busy \<Rightarrow> (fs2, 0, Return ([], Some ErrBusy))
               | Acquired \<Rightarrow>
                   (case Download E of
                      DownloadFailed e \<Rightarrow> (fs2, 1, Return ([], Some (DownloadErr e)))
                    | Downloaded bytes \<Rightarrow>
                        (let (fs3, path', err') = checkValidNetwork E (fs2(path \<mapsto> bytes)) sha
                         in (fs3, 1, Return (path', err'))))))"

text \<open>
  The lock file of an identifier (\<open>acquireLock\<close>, line 832):
  \<open>filepath.Join(dir, sha+".lck")\<close>, an entry of the cache directory like any other.
\<close>

definition lockPath :: "string \<Rightarrow> string" where
  "lockPath sha = cachePath (sha @ ''.lck'')"

text \<open>
  Modelled from the spec: the lock file package is not part of the repository. The
  spec has the lock as an advisory exclusion token tied to a lock file on disk, a
  sibling \<open>.lck\<close> file per identifier in the cache directory, held by at most one
  process at a time; a process that fails to acquire it sees the asset as being
  downloaded elsewhere. Here the lock file holds the name of the process that holds
  the lock: \<open>TryLock\<close> by the process \<open>me\<close> succeeds when there is no lock file, or
  the file is its own, and reports busy when the file is that of another process.
\<close>

definition tryLockFile :: "filesys \<Rightarrow> string \<Rightarrow> string \<Rightarrow> lock_result" where
  "tryLockFile fs sha me =
     (case fs (lockPath sha) of
        None \<Rightarrow> Acquired
      | Some owner \<Rightarrow> if owner = me then Acquired else Busy)"

text \<open>The files while the process \<open>me\<close> holds the lock of \<open>sha\<close>.\<close>

definition holding :: "filesys \<Rightarrow> string \<Rightarrow> string \<Rightarrow> filesys" where
  "holding fs sha me = fs(lockPath sha \<mapsto> me)"

text \<open>
  The files as \<open>acquireLock\<close> finds them in \<open>getNetwork\<close>, that is after the eviction
  of lines 846-851 (\<open>checkValidNetwork\<close>, in between, touches the identifier's own
  file only); and a resolution attempt by the process \<open>me\<close>, in which \<open>TryLock\<close>
  answers from the lock file as the attempt finds it.
\<close>

definition evicted :: "cache_env \<Rightarrow> filesys \<Rightarrow> string \<Rightarrow> string \<Rightarrow> filesys" where
  "evicted E fs sha keepTime =
     (if keepTime \<noteq> inf then unlink fs (fst (removeAllExcept E sha keepTime)) else fs)"

definition getNetworkAs ::
  "string \<Rightarrow> cache_env \<Rightarrow> filesys \<Rightarrow> string \<Rightarrow> string \<Rightarrow>
     filesys \<times> nat \<times> (string \<times> cache_error option) proc" where
  "getNetworkAs me E fs sha keepTime =
     getNetwork (E\<lparr>TryLock := tryLockFile (evicted E fs sha keepTime) sha me\<rparr>) fs sha keepTime"

section \<open>lc0\_main.go: train\<close>

text \<open>
  The cases of the \<open>select\<close> in the loops of \<open>train\<close> and \<open>playMatch\<close>, in the
  order in which they fire: \<open>c.Retry\<close>, \<open>doneCh\<close>, \<open>c.BestMove\<close> (with its
  \<open>ok\<close>), a game on \<open>c.gi\<close>, and \<open>c.gi\<close> closed.
\<close>

datatype select_event = SelRetry | SelDone | SelBestMove bool | SelGi gameInfo | SelGiClosed

text \<open>The test that revokes the capability when \<open>c.gi\<close> is closed.\<close>

definition revokeOnClose :: "flags \<Rightarrow> globals \<Rightarrow> bool" where
  "revokeOnClose fl g = (hasCudnnFp16 g \<and> \<not> testedCudnnFp16 g \<and> backopts fl = [])"

text \<open>What one case of the \<open>select\<close> does to the package-level variables.\<close>

definition selectGlobals :: "flags \<Rightarrow> globals \<Rightarrow> select_event \<Rightarrow> globals" where
  "selectGlobals fl g ev =
     (case ev of
        SelGi gi \<Rightarrow> g\<lparr>testedCudnnFp16 := True\<rparr>
      | SelGiClosed \<Rightarrow> if revokeOnClose fl g then g\<lparr>hasCudnnFp16 := False\<rparr> else g
      | _ \<Rightarrow> g)"

text \<open>
  A step of a run of \<open>train\<close>: a case that the \<open>select\<close> of its loop takes, or, at any
  moment, one of the upload workers still running coming to its end (given by its
  position among those running).
\<close>

datatype train_step = Select select_event | WorkerEnds nat

text \<open>
  A worker goroutine (lines 758-761) from its start to its end: the game, what
  \<open>uploadGame\<close> did, and the value it returned, which the goroutine drops. A
  \<open>log.Fatal\<close> in \<open>uploadGame\<close> ends the process.
\<close>

definition worker ::
  "(gameInfo \<Rightarrow> nat \<Rightarrow> attempt) \<Rightarrow> gameInfo \<Rightarrow> (gameInfo \<times> upload_event list \<times> string option) proc" where
  "worker up gi =
     (case uploadGame (up gi) (fname gi) of (evs, r) \<Rightarrow> bindP r (\<lambda>e. Return (gi, evs, e)))"

text \<open>
  \<open>wg.Wait()\<close>: it returns once every worker that is still running has come to its
  end.
\<close>

fun wgWait ::
  "(gameInfo \<Rightarrow> nat \<Rightarrow> attempt) \<Rightarrow> gameInfo list \<Rightarrow>
     (gameInfo \<times> upload_event list \<times> string option) list proc" where
  "wgWait up [] = Return []"
| "wgWait up (gi # gis) =
     bindP (worker up gi) (\<lambda>w. bindP (wgWait up gis) (\<lambda>ws. Return (w # ws)))"

text \<open>
  How \<open>train\<close> returns: the error (\<open>None\<close> is \<open>nil\<close>), the workers that have come to
  their end, the games of the workers that are still running, the directory that the
  deferred function removes (none while \<open>trainDirHolder[0]\<close> is empty), and the
  package-level variables.
\<close>

record train_result =
  train_err :: "string option"
  ended :: "(gameInfo \<times> upload_event list \<times> string option) list"
  running :: "gameInfo list"
  removedDir :: "string option"
  train_globals :: globals

definition returning ::
  "string option \<Rightarrow> string \<Rightarrow> (gameInfo \<times> upload_event list \<times> string option) list \<Rightarrow>
     gameInfo list \<Rightarrow> globals \<Rightarrow> train_result option proc" where
  "returning err trainDir en rn g =
     Return (Some \<lparr>train_err = err, ended = en, running = rn,
                    removedDir = (if trainDir \<noteq> [] then Some trainDir else None),
                    train_globals = g\<rparr>)"

text \<open>
  The loop of \<open>train\<close> and what follows it (lines 724-778) over the steps of a run;
  \<open>up gi\<close> is what the upload of \<open>gi\<close> meets and \<open>dir\<close> is \<open>path.Dir\<close>. The two
  \<open>return errors.New("retry")\<close> leave the function from inside the loop; the other
  ways out of the loop go through \<open>c.Cmd.Wait()\<close> and \<open>wg.Wait()\<close>. With no step
  left the loop blocks: \<open>None\<close>.
\<close>

fun trainLoop ::
  "flags \<Rightarrow> (string \<Rightarrow> string) \<Rightarrow> (gameInfo \<Rightarrow> nat \<Rightarrow> attempt) \<Rightarrow> globals \<Rightarrow> bool \<Rightarrow> string \<Rightarrow>
     (gameInfo \<times> upload_event list \<times> string option) list \<Rightarrow> gameInfo list \<Rightarrow> train_step list \<Rightarrow>
     train_result option proc" where
  "trainLoop fl dir up g progressOrKill trainDir en rn [] = Return None"
| "trainLoop fl dir up g progressOrKill trainDir en rn (Select SelRetry # steps) =
     returning (Some ''retry'') trainDir en rn g"
| "trainLoop fl dir up g progressOrKill trainDir en rn (Select SelDone # steps) =
     bindP (wgWait up rn) (\<lambda>ws. returning None trainDir (en @ ws) [] g)"
| "trainLoop fl dir up g progressOrKill trainDir en rn (Select (SelBestMove ok) # steps) =
     trainLoop fl dir up g progressOrKill trainDir en rn steps"
| "trainLoop fl dir up g progressOrKill trainDir en rn (Select (SelGi gi) # steps) =
     trainLoop fl dir up (selectGlobals fl g (SelGi gi)) True (dir (fname gi)) en (rn @ [gi]) steps"
| "trainLoop fl dir up g progressOrKill trainDir en rn (Select SelGiClosed # steps) =
     (if revokeOnClose fl g
      then returning (Some ''retry'') trainDir en rn (selectGlobals fl g SelGiClosed)
      else bindP (wgWait up rn)
             (\<lambda>ws. returning (if progressOrKill then None
                               else Some ''Client self-exited without producing any games.'')
                      trainDir (en @ ws) [] g))"
| "trainLoop fl dir up g progressOrKill trainDir en rn (WorkerEnds k # steps) =
     (if k < length rn
      then bindP (worker up (rn ! k))
             (\<lambda>w. trainLoop fl dir up g progressOrKill trainDir (en @ [w])
                     (take k rn @ drop (Suc k) rn) steps)
      else trainLoop fl dir up g progressOrKill trainDir en rn steps)"

definition train ::
  "(string list \<Rightarrow> string option) \<Rightarrow> bool \<Rightarrow> flags \<Rightarrow> (string \<Rightarrow> string) \<Rightarrow>
     (gameInfo \<Rightarrow> nat \<Rightarrow> attempt) \<Rightarrow> globals \<Rightarrow>
     string \<Rightarrow> string \<Rightarrow> string \<Rightarrow> string list \<Rightarrow> train_step list \<Rightarrow> train_result option proc" where
  "train run pipesOk fl dir up g exe networkPath otherNetPath params steps =
     bindP (launch run pipesOk fl g exe networkPath otherNetPath
              ([''selfplay''] @ params @ [''--training=true'']))
       (\<lambda>(argv, g'). trainLoop fl dir up g' False [] [] [] steps)"

text \<open>
  The cases that the \<open>select\<close> takes in a run; the cases after which the loop of
  \<open>train\<close> goes round again; and the games the loop receives before it ends.
\<close>

definition selects :: "train_step list \<Rightarrow> select_event list" where
  "selects steps = concat (map (\<lambda>st. case st of Select e \<Rightarrow> [e] | WorkerEnds k \<Rightarrow> []) steps)"

definition looping :: "select_event \<Rightarrow> bool" where
  "looping e = (case e of SelBestMove ok \<Rightarrow> True | SelGi gi \<Rightarrow> True | _ \<Rightarrow> False)"

definition received :: "select_event list \<Rightarrow> gameInfo list" where
  "received evs = concat (map (\<lambda>e. case e of SelGi gi \<Rightarrow> [gi] | _ \<Rightarrow> []) (takeWhile looping evs))"

section \<open>The process after start-up\<close>

text \<open>
  After \<open>checkLc0\<close> the package-level variables are written by three pieces of
  code only: the reader goroutine (one line at a time), the \<open>select\<close> loops of
  \<open>train\<close> and \<open>playMatch\<close> (one case at a time), and \<open>launch\<close>. A run of the
  process is any interleaving of these steps; a new session starts with a fresh
  reader.
\<close>

datatype action =
    ActLine string
  | ActSelect select_event
  | ActLaunch string string "string list"

definition procStep ::
  "'g extern \<Rightarrow> (string list \<Rightarrow> string option) \<Rightarrow> bool \<Rightarrow> flags \<Rightarrow> string \<Rightarrow>
     globals \<times> reader \<Rightarrow> action \<Rightarrow> (globals \<times> reader) proc" where
  "procStep X run pipesOk fl exe s a =
     (case a of
        ActLine line \<Rightarrow> bindP (parseLine X fl s line) (\<lambda>(s', evs). Return s')
      | ActSelect ev \<Rightarrow> Return (selectGlobals fl (fst s) ev, snd s)
      | ActLaunch networkPath otherNetPath args \<Rightarrow>
          bindP (launch run pipesOk fl (fst s) exe networkPath otherNetPath args)
            (\<lambda>(argv, g'). Return (g', initReader)))"

fun procRun ::
  "'g extern \<Rightarrow> (string list \<Rightarrow> string option) \<Rightarrow> bool \<Rightarrow> flags \<Rightarrow> string \<Rightarrow>
     globals \<times> reader \<Rightarrow> action list \<Rightarrow> (globals \<times> reader) proc" where
  "procRun X run pipesOk fl exe s [] = Return s"
| "procRun X run pipesOk fl exe s (a # acts) =
     bindP (procStep X run pipesOk fl exe s a) (\<lambda>s'. procRun X run pipesOk fl exe s' acts)"

section \<open>Concrete parameters for evaluation\<close>

text \<open>
  Small stand-ins for the external parameters, used where a statement is
  evaluated at a concrete input. The decimal parsers accept plain digit strings
  (with one optional point for the float). The chess stand-in keeps the list of
  moves played and accepts a move exactly when it has the shape of a coordinate
  move (file, rank, file, rank); the real package accepts no move of any other
  shape either.
\<close>

definition isDigit :: "char \<Rightarrow> bool" where
  "isDigit c = (c \<in> set ''0123456789'')"

definition digitVal :: "char \<Rightarrow> nat" where
  "digitVal c = of_char c - 48"

definition natOf :: "string \<Rightarrow> nat" where
  "natOf s = foldl (\<lambda>a c. 10 * a + digitVal c) 0 s"

definition toyAtoi :: "string \<Rightarrow> int \<times> bool" where
  "toyAtoi s = (if s \<noteq> [] \<and> list_all isDigit s then (int (natOf s), True) else (0, False))"

definition toyParseFloat :: "string \<Rightarrow> real \<times> bool" where
  "toyParseFloat s =
     (let ip = takeWhile isDigit s; r = dropWhile isDigit s in
      if ip = [] then (0, False)
      else if r = [] then (real (natOf ip), True)
      else if hd r = CHR ''.'' \<and> tl r \<noteq> [] \<and> list_all isDigit (tl r)
      then (real (natOf ip) + real (natOf (tl r)) / 10 ^ length (tl r), True)
      else (0, False))"

definition coordMove :: "string \<Rightarrow> bool" where
  "coordMove m =
     (length m = 4 \<and> m ! 0 \<in> set ''abcdefgh'' \<and> m ! 1 \<in> set ''12345678''
      \<and> m ! 2 \<in> set ''abcdefgh'' \<and> m ! 3 \<in> set ''12345678'')"

definition toy :: "string list extern" where
  "toy = \<lparr>ParseFloat = toyParseFloat, Atoi = toyAtoi, NewGame = [],
     NewGameFEN = (\<lambda>fen. Return []),
     MoveStr = (\<lambda>g m. if coordMove m then Some (g @ [m]) else None),
     ClaimDraw = (\<lambda>g. g), MarshalText = (\<lambda>g. Some (Join g @ '' *'')),
     Reparse = (\<lambda>b. b)\<rparr>"

definition flags0 :: flags where
  "flags0 = \<lparr>backopts = [], gpu = - 1, lc0Args = [], parallel = - 1, report_gpu = False\<rparr>"

text \<open>A decoder stand-in that takes the body as the \<open>Sha\<close> field.\<close>

definition toyUnmarshal :: "string \<Rightarrow> NextGameResponse \<Rightarrow> NextGameResponse \<times> string option" where
  "toyUnmarshal b target = (target\<lparr>Sha := b\<rparr>, None)"

definition env_do :: "nat \<Rightarrow> attempt" where
  "env_do n = (if n < 3 then DoErr ''timeout'' else Response 200 [])"

definition env_read :: "nat \<Rightarrow> attempt" where
  "env_read n = (if n < 3 then ReadErr ''unexpected EOF'' else Response 200 [])"

text \<open>
  A match task, a decoder stand-in that answers with a slot of the same match
  whose \<open>Flip\<close> is set exactly when the body is \<open>flip\<close>, and a finished game
  with the given \<open>player1\<close> and \<open>result\<close>.
\<close>

definition slot0 :: NextGameResponse where
  "slot0 = zeroResponse\<lparr>Type := ''match'', Sha := ''a'', CandidateSha := ''b''\<rparr>"

definition slotUnmarshal :: "string \<Rightarrow> NextGameResponse \<Rightarrow> NextGameResponse \<times> string option" where
  "slotUnmarshal b target = (slot0\<lparr>Flip := (b = ''flip'')\<rparr>, None)"

definition game0 :: "string \<Rightarrow> string \<Rightarrow> gameInfo" where
  "game0 p r = \<lparr>pgn = ''e2e4'', fname = ''d/g'', fp_threshold = - 1, player1 = p, result = r\<rparr>"

text \<open>
  A cache environment for evaluation: \<open>4h\<close> parses to four hours in nanoseconds;
  the directory lists an entry aged exactly four hours, one aged five hours whose
  removal fails, and one aged six hours; a file is a gzip stream when it starts with
  \<open>gz:\<close>, and the digest stand-in prefixes the bytes with \<open>sha-\<close>; the lock is held
  by another process.
\<close>

definition toyGunzip :: "string \<Rightarrow> (string \<times> bool) option" where
  "toyGunzip c = (if prefix ''gz:'' c then Some (drop 3 c, True) else None)"

definition toyDigest :: "string \<Rightarrow> string" where
  "toyDigest b = ''sha-'' @ b"

definition cacheEnv0 :: cache_env where
  "cacheEnv0 = \<lparr>ParseDuration = (\<lambda>s. if s = ''4h'' then 14400000000000 else 0),
     ReadDir = Some [\<lparr>Name = ''a'', Age = 14400000000000\<rparr>, \<lparr>Name = ''b'', Age = 18000000000000\<rparr>,
                     \<lparr>Name = ''c'', Age = 21600000000000\<rparr>],
     RemoveAllFails = (\<lambda>n. n = ''b''), gunzip = toyGunzip, sha256hex = toyDigest,
     TryLock = Busy, Download = Downloaded ''gz:net''\<rparr>"

text \<open>A cache that holds, under the name \<open>sha-net\<close>, a file with another digest.\<close>

definition staleCache :: filesys where
  "staleCache = [cachePath ''sha-net'' \<mapsto> ''gz:other'']"

text \<open>An upload in which reading the response body fails every time.\<close>

definition failing :: "gameInfo \<Rightarrow> nat \<Rightarrow> attempt" where
  "failing gi n = ReadErr ''unexpected EOF''"



text \<open>A stand-in for \<open>path.Dir\<close> on a cleaned path: what comes before the last slash.\<close>

definition toyDir :: "string \<Rightarrow> string" where
  "toyDir p =
     (if CHR ''/'' \<notin> set p then ''.''
      else (let d = rev (drop 1 (dropWhile (\<lambda>c. c \<noteq> CHR ''/'') (rev p)))
            in if d = [] then ''/'' else d))"

text \<open>An upload that the server answers with the version rejection.\<close>

definition rejecting :: "gameInfo \<Rightarrow> nat \<Rightarrow> attempt" where
  "rejecting gi n = Response 400 ''please upgrade now''"

section \<open>Invariants used in the proofs\<close>

text \<open>
  The buckets of the match uploader hold games of \<open>G\<close> only, the \<open>flipped\<close> bucket
  those with \<open>player1 = "black"\<close> and the \<open>normal\<close> bucket the others; and an upload
  is of a game of \<open>G\<close>, from the bucket its slot asks for, with the sign that goes
  with that bucket.
\<close>

definition bucketed :: "gameInfo set \<Rightarrow> uploader \<Rightarrow> bool" where
  "bucketed G s = (set (flipped s) \<subseteq> {gi \<in> G. player1 gi = ''black''}
      \<and> set (normal s) \<subseteq> {gi \<in> G. player1 gi \<noteq> ''black''})"

definition signedFor :: "gameInfo set \<Rightarrow> match_upload \<Rightarrow> bool" where
  "signedFor G u = (up_game u \<in> G \<and>
     (if Flip (up_slot u)
      then player1 (up_game u) = ''black'' \<and> up_result u = - resultToNum (result (up_game u))
      else player1 (up_game u) \<noteq> ''black'' \<and> up_result u = resultToNum (result (up_game u))))"

text \<open>
  An ended worker as the code produces it: the game, with what \<open>uploadGame\<close> did for
  it and the value \<open>uploadGame\<close> returned.
\<close>

definition uploaded ::
  "(gameInfo \<Rightarrow> nat \<Rightarrow> attempt) \<Rightarrow> gameInfo \<times> upload_event list \<times> string option \<Rightarrow> bool" where
  "uploaded up w = (uploadGame (up (fst w)) (fname (fst w)) = (fst (snd w), Return (snd (snd w))))"


section \<open>Properties\<close>

subsection \<open>Helper facts\<close>

lemma bindP_Return_iff:
  "bindP m f = Return y \<longleftrightarrow> (\<exists>x. m = Return x \<and> f x = Return y)"
  by (cases m) auto

lemma parseLine_caps:
  assumes "parseLine X fl (g, rd) line = Return ((g', rd'), evs)"
  shows "(hasCudnnFp16 g' \<longrightarrow> hasCudnnFp16 g) \<and> hasCudnn g' = hasCudnn g \<and> hasDx g' = hasDx g
     \<and> hasOpenCL g' = hasOpenCL g \<and> hasBlas g' = hasBlas g"
  using assms unfolding parseLine_def Let_def fst_conv snd_conv
  by (simp only: bindP_Return_iff split: if_splits) auto


lemma selectGlobals_caps:
  "(hasCudnnFp16 (selectGlobals fl g ev) \<longrightarrow> hasCudnnFp16 g)
     \<and> hasCudnn (selectGlobals fl g ev) = hasCudnn g \<and> hasDx (selectGlobals fl g ev) = hasDx g
     \<and> hasOpenCL (selectGlobals fl g ev) = hasOpenCL g \<and> hasBlas (selectGlobals fl g ev) = hasBlas g"
  by (cases ev) (simp_all add: selectGlobals_def)

lemma launch_Return:
  assumes "launch run ok fl g exe np onp args = Return (argv, g')"
  shows "\<exists>mode rest b p. args = mode # rest \<and> (g' = g \<or> g' = g\<lparr>testedDxNet := np\<rparr>)
      \<and> backendArgs fl g' = Return (b, p)
      \<and> argv = [exe, mode] @ (if mode \<noteq> ''selfplay'' then [''--backend=multiplexing''] else [])
                 @ (if lc0Args fl \<noteq> [] then Split (lc0Args fl) else [])
                 @ b
                 @ (if 0 < p \<and> mode = ''selfplay'' then [''--parallelism='' @ Itoa p] else [])
                 @ rest
                 @ (if onp = [] then [''--weights='' @ np]
                    else [''--player1.weights='' @ np, ''--player2.weights='' @ onp, ''--no-share-trees''])"
proof (cases args)
  case Nil
  with assms show ?thesis by (simp add: launch_def)
next
  case (Cons mode rest)
  let ?dx = "\<not> hasCudnnFp16 g \<and> \<not> hasCudnn g \<and> hasDx g \<and> testedDxNet g \<noteq> np"
  from assms Cons obtain g1 b p where
    g1: "(if ?dx then bindP (checkDx run fl g exe np) (\<lambda>_. Return (g\<lparr>testedDxNet := np\<rparr>))
          else Return g) = Return g1"
    and b: "backendArgs fl g1 = Return (b, p)"
    and r: "(if ok then Return ([exe, mode] @ (if mode \<noteq> ''selfplay'' then [''--backend=multiplexing''] else [])
                 @ (if lc0Args fl \<noteq> [] then Split (lc0Args fl) else [])
                 @ b
                 @ (if 0 < p \<and> mode = ''selfplay'' then [''--parallelism='' @ Itoa p] else [])
                 @ rest
                 @ (if onp = [] then [''--weights='' @ np]
                    else [''--player1.weights='' @ np, ''--player2.weights='' @ onp, ''--no-share-trees'']), g1)
            else Fatal ''launch'') = Return (argv, g')"
    unfolding launch_def Let_def
    by (simp only: list.case bindP_Return_iff append_assoc) (auto simp only: prod.case)
  from r have eq: "g1 = g'" and ok by (auto split: if_splits)
  from g1 have "g1 = g \<or> g1 = g\<lparr>testedDxNet := np\<rparr>"
    by (auto simp: bindP_Return_iff split: if_splits)
  with b r eq Cons show ?thesis by (auto split: if_splits)
qed


lemma launch_caps:
  assumes "launch run ok fl g exe np onp args = Return (argv, g')"
  shows "hasCudnnFp16 g' = hasCudnnFp16 g \<and> hasCudnn g' = hasCudnn g \<and> hasDx g' = hasDx g
     \<and> hasOpenCL g' = hasOpenCL g \<and> hasBlas g' = hasBlas g"
  using launch_Return [OF assms] by auto

lemma procStep_caps:
  assumes "procStep X run ok fl exe (g, rd) a = Return (g', rd')"
  shows "(hasCudnnFp16 g' \<longrightarrow> hasCudnnFp16 g) \<and> hasCudnn g' = hasCudnn g \<and> hasDx g' = hasDx g
     \<and> hasOpenCL g' = hasOpenCL g \<and> hasBlas g' = hasBlas g"
proof (cases a)
  case (ActLine line)
  with assms obtain evs where "parseLine X fl (g, rd) line = Return ((g', rd'), evs)"
    by (auto simp: procStep_def bindP_Return_iff)
  then show ?thesis by (rule parseLine_caps)
next
  case (ActSelect ev)
  with assms have "g' = selectGlobals fl g ev" by (simp add: procStep_def)
  then show ?thesis using selectGlobals_caps [of fl g ev] by simp
next
  case (ActLaunch np onp args)
  with assms obtain argv where "launch run ok fl g exe np onp args = Return (argv, g')"
    by (auto simp: procStep_def bindP_Return_iff)
  then show ?thesis using launch_caps by blast
qed

lemma procRun_caps:
  "procRun X run ok fl exe (g, rd) acts = Return (g', rd') \<Longrightarrow>
     (hasCudnnFp16 g' \<longrightarrow> hasCudnnFp16 g) \<and> hasCudnn g' = hasCudnn g \<and> hasDx g' = hasDx g
     \<and> hasOpenCL g' = hasOpenCL g \<and> hasBlas g' = hasBlas g"
proof (induction acts arbitrary: g rd)
  case Nil
  then show ?case by simp
next
  case (Cons a acts)
  from Cons.prems obtain g1 rd1 where
    s: "procStep X run ok fl exe (g, rd) a = Return (g1, rd1)" and
    r: "procRun X run ok fl exe (g1, rd1) acts = Return (g', rd')"
    by (auto simp: bindP_Return_iff)
  from procStep_caps [OF s] Cons.IH [OF r] show ?case by simp
qed


subsection \<open>The backend capability, once revoked\<close>

lemma revoked_run:
  assumes "backopts fl = []" and "\<not> hasCudnnFp16 g"
    and "procRun X run ok fl exe (g, rd) acts = Return (g', rd')"
    and "launch run ok fl g' exe networkPath otherNetPath args = Return (argv, g'')"
  shows "\<not> hasCudnnFp16 g' \<and> \<not> hasCudnnFp16 g''
     \<and> backendArgs fl g'' =
         Return (if hasCudnn g then [''--backend-opts=backend=cudnn'' @ sGpu fl]
                 else if hasDx g then [''--backend-opts=check(freq=1e-5,atol=5e-1,dx12'' @ sGpu fl @ '')'']
                 else if hasOpenCL g then [''--backend-opts=backend=opencl'' @ sGpu fl]
                 else [], parallel fl)
     \<and> argv = [exe, hd args]
          @ (if hd args \<noteq> ''selfplay'' then [''--backend=multiplexing''] else [])
          @ (if lc0Args fl \<noteq> [] then Split (lc0Args fl) else [])
          @ (if hasCudnn g then [''--backend-opts=backend=cudnn'' @ sGpu fl]
             else if hasDx g then [''--backend-opts=check(freq=1e-5,atol=5e-1,dx12'' @ sGpu fl @ '')'']
             else if hasOpenCL g then [''--backend-opts=backend=opencl'' @ sGpu fl]
             else [])
          @ (if 0 < parallel fl \<and> hd args = ''selfplay'' then [''--parallelism='' @ Itoa (parallel fl)] else [])
          @ tl args
          @ (if otherNetPath = [] then [''--weights='' @ networkPath]
             else [''--player1.weights='' @ networkPath, ''--player2.weights='' @ otherNetPath,
                   ''--no-share-trees''])"
proof -
  note c1 = procRun_caps [OF assms(3)]
  note c2 = launch_caps [OF assms(4)]
  have n1: "\<not> hasCudnnFp16 g'" using c1 assms(2) by simp
  have n2: "\<not> hasCudnnFp16 g''" using c2 n1 by simp
  have same: "hasCudnn g'' = hasCudnn g" "hasDx g'' = hasDx g" "hasOpenCL g'' = hasOpenCL g"
    using c1 c2 by simp_all
  have b: "backendArgs fl g'' =
         Return (if hasCudnn g then [''--backend-opts=backend=cudnn'' @ sGpu fl]
                 else if hasDx g then [''--backend-opts=check(freq=1e-5,atol=5e-1,dx12'' @ sGpu fl @ '')'']
                 else if hasOpenCL g then [''--backend-opts=backend=opencl'' @ sGpu fl]
                 else [], parallel fl)"
    using assms(1) n2 same by (simp add: backendArgs_def)
  from launch_Return [OF assms(4)] obtain mode rest b' p where
    A: "args = mode # rest" and B: "backendArgs fl g'' = Return (b', p)" and
    C: "argv = [exe, mode] @ (if mode \<noteq> ''selfplay'' then [''--backend=multiplexing''] else [])
                 @ (if lc0Args fl \<noteq> [] then Split (lc0Args fl) else [])
                 @ b'
                 @ (if 0 < p \<and> mode = ''selfplay'' then [''--parallelism='' @ Itoa p] else [])
                 @ rest
                 @ (if otherNetPath = [] then [''--weights='' @ networkPath]
                    else [''--player1.weights='' @ networkPath, ''--player2.weights='' @ otherNetPath,
                          ''--no-share-trees''])"
    by blast
  from B b have D: "b' = (if hasCudnn g then [''--backend-opts=backend=cudnn'' @ sGpu fl]
                 else if hasDx g then [''--backend-opts=check(freq=1e-5,atol=5e-1,dx12'' @ sGpu fl @ '')'']
                 else if hasOpenCL g then [''--backend-opts=backend=opencl'' @ sGpu fl]
                 else [])" and E: "p = parallel fl"
    by simp_all
  have "argv = [exe, hd args]
          @ (if hd args \<noteq> ''selfplay'' then [''--backend=multiplexing''] else [])
          @ (if lc0Args fl \<noteq> [] then Split (lc0Args fl) else [])
          @ (if hasCudnn g then [''--backend-opts=backend=cudnn'' @ sGpu fl]
             else if hasDx g then [''--backend-opts=check(freq=1e-5,atol=5e-1,dx12'' @ sGpu fl @ '')'']
             else if hasOpenCL g then [''--backend-opts=backend=opencl'' @ sGpu fl]
             else [])
          @ (if 0 < parallel fl \<and> hd args = ''selfplay'' then [''--parallelism='' @ Itoa (parallel fl)] else [])
          @ tl args
          @ (if otherNetPath = [] then [''--weights='' @ networkPath]
             else [''--player1.weights='' @ networkPath, ''--player2.weights='' @ otherNetPath,
                   ''--no-share-trees''])"
    unfolding C D E A list.sel ..
  with n1 n2 b show ?thesis by blast
qed


text \<open>
  Claim C1, as the code has it, when no \<open>--backend-opts\<close> was given. Both
  revocations set \<open>hasCudnnFp16\<close> to false: the reader on a line that reports FP16
  as unsupported, and the \<open>select\<close> loop when \<open>c.gi\<close> is closed while
  \<open>hasCudnnFp16\<close> is set and no inference activity was seen. From any state in
  which \<open>hasCudnnFp16\<close> is false, after any run of reader lines, \<open>select\<close> cases
  and launches it is still false, and a further \<open>launch\<close> that returns builds
  exactly the command line below: its backend argument is the one for cudnn, else
  the dx12 check, else opencl, whichever was probed first in that order, and there
  is no backend argument at all when none of the three was probed. The argument for
  cudnn-fp16 is never synthesized again.
\<close>

theorem revoked_fp16_not_selected:
  assumes "backopts fl = []"
  shows "(Contains line fp16Unsupported \<and> \<not> HasPrefix line ''Unknown command line flag'' \<longrightarrow>
            parseLine X fl (gr, rdr) line =
              Return ((gr\<lparr>hasCudnnFp16 := False\<rparr>, rdr),
                      [EvLog ''GPU doesn't support the cudnn-fp16 backend'' [], EvRetry]))
     \<and> (hasCudnnFp16 gr \<and> \<not> testedCudnnFp16 gr \<longrightarrow>
            selectGlobals fl gr SelGiClosed = gr\<lparr>hasCudnnFp16 := False\<rparr>)
     \<and> (\<not> hasCudnnFp16 g
          \<and> procRun X run ok fl exe (g, rd) acts = Return (g', rd')
          \<and> launch run ok fl g' exe networkPath otherNetPath args = Return (argv, g'') \<longrightarrow>
          \<not> hasCudnnFp16 g' \<and> \<not> hasCudnnFp16 g''
          \<and> backendArgs fl g'' =
              Return (if hasCudnn g then [''--backend-opts=backend=cudnn'' @ sGpu fl]
                      else if hasDx g
                        then [''--backend-opts=check(freq=1e-5,atol=5e-1,dx12'' @ sGpu fl @ '')'']
                      else if hasOpenCL g then [''--backend-opts=backend=opencl'' @ sGpu fl]
                      else [], parallel fl)
          \<and> argv = [exe, hd args]
              @ (if hd args \<noteq> ''selfplay'' then [''--backend=multiplexing''] else [])
              @ (if lc0Args fl \<noteq> [] then Split (lc0Args fl) else [])
              @ (if hasCudnn g then [''--backend-opts=backend=cudnn'' @ sGpu fl]
                 else if hasDx g
                   then [''--backend-opts=check(freq=1e-5,atol=5e-1,dx12'' @ sGpu fl @ '')'']
                 else if hasOpenCL g then [''--backend-opts=backend=opencl'' @ sGpu fl]
                 else [])
              @ (if 0 < parallel fl \<and> hd args = ''selfplay''
                 then [''--parallelism='' @ Itoa (parallel fl)] else [])
              @ tl args
              @ (if otherNetPath = [] then [''--weights='' @ networkPath]
                 else [''--player1.weights='' @ networkPath, ''--player2.weights='' @ otherNetPath,
                       ''--no-share-trees'']))"
proof (intro conjI impI)
  assume "Contains line fp16Unsupported \<and> \<not> HasPrefix line ''Unknown command line flag''"
  then show "parseLine X fl (gr, rdr) line =
              Return ((gr\<lparr>hasCudnnFp16 := False\<rparr>, rdr),
                      [EvLog ''GPU doesn't support the cudnn-fp16 backend'' [], EvRetry])"
    using assms by (simp add: parseLine_def)
next
  assume "hasCudnnFp16 gr \<and> \<not> testedCudnnFp16 gr"
  then show "selectGlobals fl gr SelGiClosed = gr\<lparr>hasCudnnFp16 := False\<rparr>"
    using assms by (simp add: selectGlobals_def revokeOnClose_def)
next
  assume a: "\<not> hasCudnnFp16 g
          \<and> procRun X run ok fl exe (g, rd) acts = Return (g', rd')
          \<and> launch run ok fl g' exe networkPath otherNetPath args = Return (argv, g'')"
  note r = revoked_run [OF assms, of g X run ok exe rd acts g' rd' networkPath otherNetPath args argv g'']
  from a r show "\<not> hasCudnnFp16 g'" by blast
  from a r show "\<not> hasCudnnFp16 g''" by blast
  from a r show "backendArgs fl g'' =
              Return (if hasCudnn g then [''--backend-opts=backend=cudnn'' @ sGpu fl]
                      else if hasDx g
                        then [''--backend-opts=check(freq=1e-5,atol=5e-1,dx12'' @ sGpu fl @ '')'']
                      else if hasOpenCL g then [''--backend-opts=backend=opencl'' @ sGpu fl]
                      else [], parallel fl)" by blast
  from a r show "argv = [exe, hd args]
              @ (if hd args \<noteq> ''selfplay'' then [''--backend=multiplexing''] else [])
              @ (if lc0Args fl \<noteq> [] then Split (lc0Args fl) else [])
              @ (if hasCudnn g then [''--backend-opts=backend=cudnn'' @ sGpu fl]
                 else if hasDx g
                   then [''--backend-opts=check(freq=1e-5,atol=5e-1,dx12'' @ sGpu fl @ '')'']
                 else if hasOpenCL g then [''--backend-opts=backend=opencl'' @ sGpu fl]
                 else [])
              @ (if 0 < parallel fl \<and> hd args = ''selfplay''
                 then [''--parallelism='' @ Itoa (parallel fl)] else [])
              @ tl args
              @ (if otherNetPath = [] then [''--weights='' @ networkPath]
                 else [''--player1.weights='' @ networkPath, ''--player2.weights='' @ otherNetPath,
                       ''--no-share-trees''])" by blast
qed

text \<open>
  The theorem at a concrete run: cudnn-fp16, cudnn and blas probed; the engine
  reports that FP16 is unsupported, which revokes the capability; the session is
  relaunched and its output closes after inference activity; the next launch
  selects cudnn.
\<close>

theorem revoked_fp16_not_selected_witness:
  "parseLine toy flags0
       (initGlobals\<lparr>hasBlas := True, hasCudnn := True, hasCudnnFp16 := True\<rparr>, initReader)
       ''Your GPU doesn't support FP16''
     = Return ((initGlobals\<lparr>hasBlas := True, hasCudnn := True\<rparr>, initReader),
               [EvLog ''GPU doesn't support the cudnn-fp16 backend'' [], EvRetry])
   \<and> selectGlobals flags0 (initGlobals\<lparr>hasBlas := True, hasCudnn := True, hasCudnnFp16 := True\<rparr>)
       SelGiClosed
     = initGlobals\<lparr>hasBlas := True, hasCudnn := True\<rparr>
   \<and> backendArgs flags0
       (initGlobals\<lparr>hasBlas := True, hasCudnn := True, testedCudnnFp16 := True\<rparr>)
     = Return ([''--backend-opts=backend=cudnn''], - 1)
   \<and> launch (\<lambda>a. None) True flags0
       (initGlobals\<lparr>hasBlas := True, hasCudnn := True, testedCudnnFp16 := True\<rparr>)
       ''/lc0'' ''net'' [] [''selfplay'', ''--training=true'']
     = Return ([''/lc0'', ''selfplay'', ''--backend-opts=backend=cudnn'', ''--training=true'',
                ''--weights=net''],
               initGlobals\<lparr>hasBlas := True, hasCudnn := True, testedCudnnFp16 := True\<rparr>)"
proof -
  let ?ga = "initGlobals\<lparr>hasBlas := True, hasCudnn := True, hasCudnnFp16 := True\<rparr>"
  let ?gb = "initGlobals\<lparr>hasBlas := True, hasCudnn := True\<rparr>"
  let ?gc = "initGlobals\<lparr>hasBlas := True, hasCudnn := True, testedCudnnFp16 := True\<rparr>"
  let ?line = "''Your GPU doesn't support FP16''"
  let ?acts = "[ActSelect SelRetry,
                ActLaunch ''net'' [] [''selfplay'', ''--training=true''],
                ActLine ''info depth 1'', ActSelect SelGiClosed]"
  have h1: "backopts flags0 = []" by (simp add: flags0_def)
  have l: "Contains ?line fp16Unsupported \<and> \<not> HasPrefix ?line ''Unknown command line flag''"
    by code_simp
  have c: "hasCudnnFp16 ?ga \<and> \<not> testedCudnnFp16 ?ga" by (simp add: initGlobals_def)
  have u: "?ga\<lparr>hasCudnnFp16 := False\<rparr> = ?gb" by (simp add: initGlobals_def)
  have h2: "\<not> hasCudnnFp16 ?gb" by (simp add: initGlobals_def)
  have h3: "procRun toy (\<lambda>a. None) True flags0 ''/lc0'' (?gb, initReader) ?acts
              = Return (?gc, initReader)"
    by code_simp
  have h4: "launch (\<lambda>a. None) True flags0 ?gc ''/lc0'' ''net'' [] [''selfplay'', ''--training=true'']
     = Return ([''/lc0'', ''selfplay'', ''--backend-opts=backend=cudnn'', ''--training=true'',
                ''--weights=net''], ?gc)"
    by code_simp
  note T = revoked_fp16_not_selected [OF h1, where line = ?line and X = toy and gr = ?ga
      and rdr = initReader and g = ?gb and run = "\<lambda>a. None" and ok = True and exe = "''/lc0''"
      and rd = initReader and acts = ?acts and g' = ?gc and rd' = initReader
      and networkPath = "''net''" and otherNetPath = "[]"
      and args = "[''selfplay'', ''--training=true'']"
      and argv = "[''/lc0'', ''selfplay'', ''--backend-opts=backend=cudnn'', ''--training=true'',
                ''--weights=net'']" and g'' = ?gc]
  have p1: "parseLine toy flags0 (?ga, initReader) ?line
     = Return ((?gb, initReader), [EvLog ''GPU doesn't support the cudnn-fp16 backend'' [], EvRetry])"
    using T l unfolding u by blast
  have p2: "selectGlobals flags0 ?ga SelGiClosed = ?gb"
    using T c unfolding u by blast
  have "backendArgs flags0 ?gc =
              Return (if hasCudnn ?gb then [''--backend-opts=backend=cudnn'' @ sGpu flags0]
                      else if hasDx ?gb
                        then [''--backend-opts=check(freq=1e-5,atol=5e-1,dx12'' @ sGpu flags0 @ '')'']
                      else if hasOpenCL ?gb then [''--backend-opts=backend=opencl'' @ sGpu flags0]
                      else [], parallel flags0)"
    using T h2 h3 h4 by blast
  then have p3: "backendArgs flags0 ?gc = Return ([''--backend-opts=backend=cudnn''], - 1)"
    by (simp add: initGlobals_def flags0_def sGpu_def)
  from p1 p2 p3 h4 show ?thesis by blast
qed

text \<open>
  Claim C1 as stated asks that the synthesized argument name a lower-preference
  backend. With an engine whose help lists only cudnn-fp16 and blas, \<open>checkLc0\<close>
  leaves every other capability false; after the revocation \<open>launch\<close> synthesizes
  no \<open>--backend-opts\<close> argument at all.
\<close>

theorem revoked_fp16_counterexample:
  "checkLc0 (Some ''backends: cudnn-fp16 blas'') initGlobals
     = Return (initGlobals\<lparr>hasBlas := True, hasCudnnFp16 := True\<rparr>)
   \<and> parseLine toy flags0 (initGlobals\<lparr>hasBlas := True, hasCudnnFp16 := True\<rparr>, initReader)
       ''Your GPU doesn't support FP16''
     = Return ((initGlobals\<lparr>hasBlas := True, hasCudnnFp16 := False\<rparr>, initReader),
               [EvLog ''GPU doesn't support the cudnn-fp16 backend'' [], EvRetry])
   \<and> launch (\<lambda>a. None) True flags0 (initGlobals\<lparr>hasBlas := True, hasCudnnFp16 := False\<rparr>)
       ''/lc0'' ''net'' [] [''selfplay'', ''--training=true'']
     = Return ([''/lc0'', ''selfplay'', ''--training=true'', ''--weights=net''],
               initGlobals\<lparr>hasBlas := True, hasCudnnFp16 := False\<rparr>)"
  by code_simp

subsection \<open>NextGame\<close>

lemma NextGame_nil:
  "NextGame U r = Return (resp, None) \<Longrightarrow> Sha resp \<noteq> []"
  by (auto simp: NextGame_def postParams_def split: proc.splits prod.splits if_splits)

lemma matchLoop_pending:
  "matchLoop U posts ngr s = Return (s', ups, r) \<Longrightarrow>
   (\<forall>ng. pendingNextGame s = Some ng \<longrightarrow> Sha ng \<noteq> []) \<Longrightarrow>
   (\<forall>ng. pendingNextGame s' = Some ng \<longrightarrow> Sha ng \<noteq> [])"
proof (induction U posts ngr s arbitrary: s' ups r rule: matchLoop.induct)
  case (1 U posts ngr s)
  let ?s1 = "snd (pairStep s)" and ?u1 = "fst (pairStep s)"
  have p1: "pendingNextGame ?s1 = pendingNextGame s"
    by (auto simp: pairStep_def Let_def split: option.splits)
  show ?case
  proof (cases "curng ?s1 \<noteq> None")
    case True
    with "1.prems"(1) have "s' = ?s1"
      by (subst (asm) matchLoop.simps) (simp add: Let_def)
    with p1 "1.prems"(2) show ?thesis by simp
  next
    case False
    show ?thesis
    proof (cases "NextGame U (posts (calls ?s1))")
      case (Return x)
      obtain ng err where x: "x = (ng, err)" by (cases x)
      show ?thesis
      proof (cases err)
        case (Some e)
        with "1.prems"(1) False Return x
        have "s' = ?s1\<lparr>errCount := errCount ?s1 + 1, calls := calls ?s1 + 1\<rparr>"
          by (subst (asm) matchLoop.simps) (simp add: Let_def)
        with p1 "1.prems"(2) show ?thesis by simp
      next
        case None
        with Return x have sha: "Sha ng \<noteq> []" using NextGame_nil by blast
        let ?diff = "Type ng \<noteq> Type ngr \<or> Sha ng \<noteq> Sha ngr \<or> CandidateSha ng \<noteq> CandidateSha ngr"
        show ?thesis
        proof (cases ?diff)
          case True
          with "1.prems"(1) False Return x None
          have "s' = ?s1\<lparr>calls := calls ?s1 + 1, pendingNextGame := Some ng\<rparr>"
            by (subst (asm) matchLoop.simps) (simp add: Let_def)
          with sha show ?thesis by simp
        next
          case nd: False
          let ?s2 = "?s1\<lparr>curng := Some ng, errCount := 0, calls := calls ?s1 + 1\<rparr>"
          from "1.prems"(1) False Return x None nd
          obtain ups' where rec: "matchLoop U posts ngr ?s2 = Return (s', ups', r)"
            by (subst (asm) matchLoop.simps) (auto simp: Let_def bindP_Return_iff)
          have b2: "\<forall>ng. pendingNextGame ?s2 = Some ng \<longrightarrow> Sha ng \<noteq> []"
            using p1 "1.prems"(2) by simp
          from "1.IH" [OF refl refl _ Return x [symmetric] None _ rec b2] False nd
          show ?thesis by simp
        qed
      qed
    next
      case (Fatal m)
      with "1.prems"(1) False show ?thesis by (subst (asm) matchLoop.simps) (simp add: Let_def)
    next
      case (Exit n)
      with "1.prems"(1) False show ?thesis by (subst (asm) matchLoop.simps) (simp add: Let_def)
    next
      case (Panic m)
      with "1.prems"(1) False show ?thesis by (subst (asm) matchLoop.simps) (simp add: Let_def)
    qed
  qed
qed

lemma uploaderRun_pending:
  "uploaderRun U posts ngr s gis = Return (s', ups) \<Longrightarrow>
   (\<forall>ng. pendingNextGame s = Some ng \<longrightarrow> Sha ng \<noteq> []) \<Longrightarrow>
   (\<forall>ng. pendingNextGame s' = Some ng \<longrightarrow> Sha ng \<noteq> [])"
proof (induction gis arbitrary: s s' ups)
  case Nil
  then show ?case by simp
next
  case (Cons gi gis)
  from Cons.prems(1) obtain s1 ups1 r where
    one: "matchLoop U posts ngr (addGame gi s) = Return (s1, ups1, r)" and
    rest: "(if r then Return (s1, ups1)
            else bindP (uploaderRun U posts ngr s1 gis) (\<lambda>(s'', ups'). Return (s'', ups1 @ ups')))
           = Return (s', ups)"
    by (auto simp: bindP_Return_iff onGameInfo_def)
  have "\<forall>ng. pendingNextGame (addGame gi s) = Some ng \<longrightarrow> Sha ng \<noteq> []"
    using Cons.prems(2) by (simp add: addGame_def)
  note inv1 = matchLoop_pending [OF one this]
  show ?case
  proof (cases r)
    case True
    with rest inv1 show ?thesis by simp
  next
    case False
    with rest obtain ups2 where run: "uploaderRun U posts ngr s1 gis = Return (s', ups2)"
      by (auto simp: bindP_Return_iff)
    from Cons.IH [OF run inv1] show ?thesis .
  qed
qed

text \<open>
  Claim C10. When the body decodes without error and the decoded \<open>Sha\<close> is empty,
  \<open>NextGame\<close> returns the error "Server gave back empty SHA"; and whenever
  \<open>NextGame\<close> returns a nil error, the response it returns has a non-empty \<open>Sha\<close>.
  So the task that \<open>nextGame\<close> fetches from the server has a non-empty \<open>Sha\<close>, and
  so has the task that the match uploader leaves as pending.
\<close>

theorem NextGame_empty_Sha:
  "(U b zeroResponse = (t, None) \<and> Sha t = [] \<longrightarrow>
      NextGame U (PostBody b) = Return (t, Some ''Server gave back empty SHA''))
   \<and> (NextGame U r = Return (resp, None) \<longrightarrow> Sha resp \<noteq> [])
   \<and> (fetchTask U r None = Return (pending', Inr task) \<longrightarrow> Sha task \<noteq> [])
   \<and> (uploaderRun U posts ngr (initUploader ngr) gis = Return (s', ups)
        \<and> pendingNextGame s' = Some ng \<longrightarrow> Sha ng \<noteq> [])"
proof -
  have 1: "U b zeroResponse = (t, None) \<and> Sha t = [] \<longrightarrow>
      NextGame U (PostBody b) = Return (t, Some ''Server gave back empty SHA'')"
    by (auto simp: NextGame_def postParams_def)
  have 3: "fetchTask U r None = Return (pending', Inr task) \<longrightarrow> Sha task \<noteq> []"
    by (auto simp: fetchTask_def bindP_Return_iff split: option.splits dest: NextGame_nil)
  have 4: "uploaderRun U posts ngr (initUploader ngr) gis = Return (s', ups)
        \<and> pendingNextGame s' = Some ng \<longrightarrow> Sha ng \<noteq> []"
    using uploaderRun_pending [of U posts ngr "initUploader ngr" gis s' ups]
    by (simp add: initUploader_def)
  from 1 3 4 NextGame_nil [of U r resp] show ?thesis by blast
qed

text \<open>
  The theorem at concrete answers of the server: an empty \<open>Sha\<close> is an error, a
  non-empty one is returned and fetched as the next task, and the task that ends a
  match is kept as pending with its \<open>Sha\<close>.
\<close>

theorem NextGame_empty_Sha_witness:
  "NextGame toyUnmarshal (PostBody []) = Return (zeroResponse, Some ''Server gave back empty SHA'')
   \<and> NextGame toyUnmarshal (PostBody ''abc'') = Return (zeroResponse\<lparr>Sha := ''abc''\<rparr>, None)
   \<and> fetchTask toyUnmarshal (PostBody ''abc'') None = Return (None, Inr (zeroResponse\<lparr>Sha := ''abc''\<rparr>))
   \<and> Sha (zeroResponse\<lparr>Sha := ''abc''\<rparr>) \<noteq> []
   \<and> pendingNextGame (fst (case uploaderRun slotUnmarshal (\<lambda>n. PostBody ''flip'')
         (slot0\<lparr>Sha := ''old''\<rparr>) (initUploader (slot0\<lparr>Sha := ''old''\<rparr>))
         [game0 ''white'' ''whitewon''] of Return x \<Rightarrow> x)) = Some (slot0\<lparr>Flip := True\<rparr>)
   \<and> Sha (slot0\<lparr>Flip := True\<rparr>) \<noteq> []"
proof -
  let ?r = "zeroResponse\<lparr>Sha := ''abc''\<rparr>"
  let ?ngr = "slot0\<lparr>Sha := ''old''\<rparr>"
  let ?s' = "\<lparr>curng = None, flipped = [], normal = [], errCount = 0, calls = 1,
              pendingNextGame = Some (slot0\<lparr>Flip := True\<rparr>)\<rparr>"
  let ?ups = "[\<lparr>up_slot = ?ngr, up_game = game0 ''white'' ''whitewon'', up_result = 1\<rparr>]"
  have a: "toyUnmarshal [] zeroResponse = (zeroResponse, None) \<and> Sha zeroResponse = []"
    by (simp add: toyUnmarshal_def zeroResponse_def)
  have b: "NextGame toyUnmarshal (PostBody ''abc'') = Return (?r, None)"
    by (simp add: NextGame_def postParams_def toyUnmarshal_def zeroResponse_def)
  have c: "fetchTask toyUnmarshal (PostBody ''abc'') None = Return (None, Inr ?r)"
    by (simp add: fetchTask_def b)
  have d: "uploaderRun slotUnmarshal (\<lambda>n. PostBody ''flip'') ?ngr (initUploader ?ngr)
             [game0 ''white'' ''whitewon''] = Return (?s', ?ups)"
    by code_simp
  note T = NextGame_empty_Sha [where U = toyUnmarshal and b = "[]" and t = zeroResponse
      and r = "PostBody ''abc''" and resp = ?r and pending' = None and task = ?r]
  have 1: "NextGame toyUnmarshal (PostBody []) = Return (zeroResponse, Some ''Server gave back empty SHA'')"
    using T a by blast
  have 2: "Sha ?r \<noteq> []" using T b by blast
  have 3: "Sha (slot0\<lparr>Flip := True\<rparr>) \<noteq> []"
    using NextGame_empty_Sha [where U = slotUnmarshal and posts = "\<lambda>n. PostBody ''flip''"
        and ngr = ?ngr and gis = "[game0 ''white'' ''whitewon'']" and s' = ?s' and ups = ?ups
        and ng = "slot0\<lparr>Flip := True\<rparr>"] d
    by simp
  from 1 2 3 b c d show ?thesis by simp
qed

subsection \<open>uploadGame\<close>

lemma uploadLoop_3:
  "uploadLoop env path 3 = ([], Return (Some ''UploadGame failed: Too many retries''))"
  by (subst uploadLoop.simps) simp

lemma uploadLoop_2:
  "uploadLoop env path 2 =
     (case env 3 of
        BuildErr e \<Rightarrow> ([], Return (Some e))
      | DoErr e \<Rightarrow> ([UpRequest 3], Return (Some e))
      | ReadErr e \<Rightarrow> ([UpRequest 3, UpSleep 16000000000],
                       Return (Some ''UploadGame failed: Too many retries''))
      | Response status body \<Rightarrow>
          if status \<noteq> 200 \<and> Contains body '' upgrade ''
          then ([UpRequest 3], Fatal ''You probably need the latest release'')
          else ([UpRequest 3, UpCounted, UpRemove path], Return None))"
  by (subst uploadLoop.simps) (simp add: uploadLoop_3 backoff_def split: attempt.splits)

lemma uploadLoop_1:
  "uploadLoop env path 1 =
     (case env 2 of
        BuildErr e \<Rightarrow> ([], Return (Some e))
      | DoErr e \<Rightarrow> ([UpRequest 2], Return (Some e))
      | ReadErr e \<Rightarrow> (UpRequest 2 # UpSleep 8000000000 # fst (uploadLoop env path 2),
                       snd (uploadLoop env path 2))
      | Response status body \<Rightarrow>
          if status \<noteq> 200 \<and> Contains body '' upgrade ''
          then ([UpRequest 2], Fatal ''You probably need the latest release'')
          else ([UpRequest 2, UpCounted, UpRemove path], Return None))"
  by (subst uploadLoop.simps) (simp add: backoff_def split: attempt.splits prod.splits)

lemma uploadLoop_0:
  "uploadLoop env path 0 =
     (case env 1 of
        BuildErr e \<Rightarrow> ([], Return (Some e))
      | DoErr e \<Rightarrow> ([UpRequest 1], Return (Some e))
      | ReadErr e \<Rightarrow> (UpRequest 1 # UpSleep 4000000000 # fst (uploadLoop env path 1),
                       snd (uploadLoop env path 1))
      | Response status body \<Rightarrow>
          if status \<noteq> 200 \<and> Contains body '' upgrade ''
          then ([UpRequest 1], Fatal ''You probably need the latest release'')
          else ([UpRequest 1, UpCounted, UpRemove path], Return None))"
  by (subst uploadLoop.simps) (simp add: backoff_def split: attempt.splits prod.splits)

lemmas uploadGame_unfold =
  uploadGame_def uploadLoop_0 uploadLoop_1 uploadLoop_2 requests_def sleeps_def

lemma retried_simps:
  "retried 1 = []"
  "retried (Suc 0) = []"
  "retried 2 = [UpRequest 1, UpSleep 4000000000]"
  "retried 3 = [UpRequest 1, UpSleep 4000000000, UpRequest 2, UpSleep 8000000000]"
  by (simp_all add: retried_def backoff_def upt_rec)

lemma uploadGame_pass:
  assumes n: "1 \<le> n" "n \<le> 3"
    and before: "\<forall>k. 1 \<le> k \<and> k < n \<longrightarrow> (\<exists>e'. env k = ReadErr e')"
  shows "uploadGame env path =
     (case env n of
        BuildErr e \<Rightarrow> (retried n, Return (Some e))
      | DoErr e \<Rightarrow> (retried n @ [UpRequest n], Return (Some e))
      | ReadErr e \<Rightarrow> (retried n @ UpRequest n # UpSleep (backoff (of_nat n)) # fst (uploadLoop env path (of_nat n)),
                      snd (uploadLoop env path (of_nat n)))
      | Response status body \<Rightarrow>
          if status \<noteq> 200 \<and> Contains body '' upgrade ''
          then (retried n @ [UpRequest n], Fatal ''You probably need the latest release'')
          else (retried n @ [UpRequest n, UpCounted, UpRemove path], Return None))"
proof -
  from n have "n = 1 \<or> n = 2 \<or> n = 3" by arith
  then show ?thesis
  proof (elim disjE)
    assume "n = 1"
    then show ?thesis
      by (simp add: uploadGame_def uploadLoop_0 retried_simps backoff_def split: attempt.splits)
  next
    assume n2: "n = 2"
    with before obtain e1 where "env 1 = ReadErr e1" by force
    with n2 show ?thesis
      by (simp add: uploadGame_def uploadLoop_0 uploadLoop_1 retried_simps backoff_def split: attempt.splits)
  next
    assume n3: "n = 3"
    with before obtain e1 where e1: "env 1 = ReadErr e1" by force
    from n3 before have "\<exists>e'. env 2 = ReadErr e'" by simp
    then obtain e2 where "env 2 = ReadErr e2" by blast
    with n3 e1 show ?thesis
      by (simp add: uploadGame_def uploadLoop_0 uploadLoop_1 uploadLoop_2 uploadLoop_3 retried_simps backoff_def split: attempt.splits)
  qed
qed

text \<open>
  Claim C2, as the code has it. \<open>uploadGame\<close> hands at most three requests to the
  HTTP client, and its sleeps are strictly increasing. Only a failure to read the
  response body is retried: after the first, second and third such failure it sleeps
  4, 8 and 16 seconds, and after the third it returns "UploadGame failed: Too many
  retries". Two such failures followed by a response that is read, other than the
  version rejection, return nil once, after exactly three requests, with
  \<open>totalGames\<close> counted once. On whichever pass \<open>n\<close> (1, 2 or 3) the read failures
  lead to: a failure to build the request returns that error at once, with no request
  on that pass; a failure to send it returns that error at once, after the request;
  the version rejection (a status other than 200 and \<open>upgrade\<close> between spaces in the
  body) ends the process with \<open>log.Fatal\<close>; any other response that is read returns
  nil. None of the four is followed by a sleep or a further pass.
\<close>

theorem uploadGame_retries:
  "length (requests (fst (uploadGame env path))) \<le> 3
   \<and> sorted_wrt (<) (sleeps (fst (uploadGame env path)))
   \<and> ((\<exists>e1. env 1 = ReadErr e1) \<and> (\<exists>e2. env 2 = ReadErr e2) \<and> (\<exists>e3. env 3 = ReadErr e3) \<longrightarrow>
        uploadGame env path =
          ([UpRequest 1, UpSleep 4000000000, UpRequest 2, UpSleep 8000000000,
            UpRequest 3, UpSleep 16000000000],
           Return (Some ''UploadGame failed: Too many retries'')))
   \<and> ((\<exists>e1. env 1 = ReadErr e1) \<and> (\<exists>e2. env 2 = ReadErr e2) \<and> env 3 = Response status body
        \<and> \<not> (status \<noteq> 200 \<and> Contains body '' upgrade '') \<longrightarrow>
        uploadGame env path =
          ([UpRequest 1, UpSleep 4000000000, UpRequest 2, UpSleep 8000000000,
            UpRequest 3, UpCounted, UpRemove path],
           Return None))
   \<and> (1 \<le> n \<and> n \<le> 3 \<and> (\<forall>k. 1 \<le> k \<and> k < n \<longrightarrow> (\<exists>e'. env k = ReadErr e')) \<longrightarrow>
        (env n = BuildErr e \<longrightarrow> uploadGame env path = (retried n, Return (Some e)))
      \<and> (env n = DoErr e \<longrightarrow> uploadGame env path = (retried n @ [UpRequest n], Return (Some e)))
      \<and> (env n = Response status body \<and> status \<noteq> 200 \<and> Contains body '' upgrade '' \<longrightarrow>
           uploadGame env path =
             (retried n @ [UpRequest n], Fatal ''You probably need the latest release''))
      \<and> (env n = Response status body \<and> \<not> (status \<noteq> 200 \<and> Contains body '' upgrade '') \<longrightarrow>
           uploadGame env path = (retried n @ [UpRequest n, UpCounted, UpRemove path], Return None)))
   \<and> retried 1 = []
   \<and> retried 2 = [UpRequest 1, UpSleep 4000000000]
   \<and> retried 3 = [UpRequest 1, UpSleep 4000000000, UpRequest 2, UpSleep 8000000000]"
proof -
  have a: "length (requests (fst (uploadGame env path))) \<le> 3"
    by (simp add: uploadGame_unfold split: attempt.splits)
  have b: "sorted_wrt (<) (sleeps (fst (uploadGame env path)))"
    by (simp add: uploadGame_unfold split: attempt.splits)
  have c: "(\<exists>e1. env 1 = ReadErr e1) \<and> (\<exists>e2. env 2 = ReadErr e2) \<and> (\<exists>e3. env 3 = ReadErr e3) \<longrightarrow>
        uploadGame env path =
          ([UpRequest 1, UpSleep 4000000000, UpRequest 2, UpSleep 8000000000,
            UpRequest 3, UpSleep 16000000000],
           Return (Some ''UploadGame failed: Too many retries''))"
    by (auto simp: uploadGame_unfold)
  have d: "(\<exists>e1. env 1 = ReadErr e1) \<and> (\<exists>e2. env 2 = ReadErr e2) \<and> env 3 = Response status body
        \<and> \<not> (status \<noteq> 200 \<and> Contains body '' upgrade '') \<longrightarrow>
        uploadGame env path =
          ([UpRequest 1, UpSleep 4000000000, UpRequest 2, UpSleep 8000000000,
            UpRequest 3, UpCounted, UpRemove path],
           Return None)"
    by (auto simp: uploadGame_unfold)
  have e: "1 \<le> n \<and> n \<le> 3 \<and> (\<forall>k. 1 \<le> k \<and> k < n \<longrightarrow> (\<exists>e'. env k = ReadErr e')) \<longrightarrow>
        (env n = BuildErr e \<longrightarrow> uploadGame env path = (retried n, Return (Some e)))
      \<and> (env n = DoErr e \<longrightarrow> uploadGame env path = (retried n @ [UpRequest n], Return (Some e)))
      \<and> (env n = Response status body \<and> status \<noteq> 200 \<and> Contains body '' upgrade '' \<longrightarrow>
           uploadGame env path =
             (retried n @ [UpRequest n], Fatal ''You probably need the latest release''))
      \<and> (env n = Response status body \<and> \<not> (status \<noteq> 200 \<and> Contains body '' upgrade '') \<longrightarrow>
           uploadGame env path = (retried n @ [UpRequest n, UpCounted, UpRemove path], Return None))"
  proof (intro impI)
    assume h: "1 \<le> n \<and> n \<le> 3 \<and> (\<forall>k. 1 \<le> k \<and> k < n \<longrightarrow> (\<exists>e'. env k = ReadErr e'))"
    then have "1 \<le> n" "n \<le> 3" "\<forall>k. 1 \<le> k \<and> k < n \<longrightarrow> (\<exists>e'. env k = ReadErr e')" by blast+
    note p = uploadGame_pass [OF this]
    show "(env n = BuildErr e \<longrightarrow> uploadGame env path = (retried n, Return (Some e)))
      \<and> (env n = DoErr e \<longrightarrow> uploadGame env path = (retried n @ [UpRequest n], Return (Some e)))
      \<and> (env n = Response status body \<and> status \<noteq> 200 \<and> Contains body '' upgrade '' \<longrightarrow>
           uploadGame env path =
             (retried n @ [UpRequest n], Fatal ''You probably need the latest release''))
      \<and> (env n = Response status body \<and> \<not> (status \<noteq> 200 \<and> Contains body '' upgrade '') \<longrightarrow>
           uploadGame env path = (retried n @ [UpRequest n, UpCounted, UpRemove path], Return None))"
      unfolding p [of path] by auto
  qed
  show ?thesis using a b c d e retried_simps(1,3,4) by blast
qed

text \<open>
  The theorem on concrete uploads: two read failures and a success; three read
  failures; a send failure on the first and on the second pass; a build failure on
  the third pass; the version rejection on the third pass; and, on the second pass,
  a response with status 500 that is not the version rejection.
\<close>

theorem uploadGame_retries_witness:
  "uploadGame env_read ''game.gz'' =
          ([UpRequest 1, UpSleep 4000000000, UpRequest 2, UpSleep 8000000000,
            UpRequest 3, UpCounted, UpRemove ''game.gz''], Return None)
   \<and> uploadGame (\<lambda>n. ReadErr ''unexpected EOF'') ''game.gz'' =
          ([UpRequest 1, UpSleep 4000000000, UpRequest 2, UpSleep 8000000000,
            UpRequest 3, UpSleep 16000000000],
           Return (Some ''UploadGame failed: Too many retries''))
   \<and> uploadGame (\<lambda>n. DoErr ''timeout'') ''game.gz'' = ([UpRequest 1], Return (Some ''timeout''))
   \<and> uploadGame (\<lambda>n. if n < 2 then ReadErr ''unexpected EOF'' else DoErr ''timeout'') ''game.gz''
       = ([UpRequest 1, UpSleep 4000000000, UpRequest 2], Return (Some ''timeout''))
   \<and> uploadGame (\<lambda>n. if n < 3 then ReadErr ''unexpected EOF'' else BuildErr ''no file'') ''game.gz''
       = ([UpRequest 1, UpSleep 4000000000, UpRequest 2, UpSleep 8000000000],
          Return (Some ''no file''))
   \<and> uploadGame (\<lambda>n. if n < 3 then ReadErr ''unexpected EOF'' else Response 400 ''please upgrade now'')
        ''game.gz''
       = ([UpRequest 1, UpSleep 4000000000, UpRequest 2, UpSleep 8000000000, UpRequest 3],
          Fatal ''You probably need the latest release'')
   \<and> uploadGame (\<lambda>n. if n < 2 then ReadErr ''unexpected EOF'' else Response 500 ''try later'')
        ''game.gz''
       = ([UpRequest 1, UpSleep 4000000000, UpRequest 2, UpCounted, UpRemove ''game.gz''],
          Return None)"
proof -
  let ?p = "''game.gz''"
  let ?do2 = "\<lambda>n::nat. if n < 2 then ReadErr ''unexpected EOF'' else DoErr ''timeout''"
  let ?bu3 = "\<lambda>n::nat. if n < 3 then ReadErr ''unexpected EOF'' else BuildErr ''no file''"
  let ?rj3 = "\<lambda>n::nat. if n < 3 then ReadErr ''unexpected EOF'' else Response 400 ''please upgrade now''"
  let ?ok2 = "\<lambda>n::nat. if n < 2 then ReadErr ''unexpected EOF'' else Response 500 ''try later''"
  have up: "Contains ''please upgrade now'' '' upgrade ''" by code_simp
  have nu: "\<not> Contains ''try later'' '' upgrade ''" by code_simp
  have 1: "uploadGame env_read ?p =
          ([UpRequest 1, UpSleep 4000000000, UpRequest 2, UpSleep 8000000000,
            UpRequest 3, UpCounted, UpRemove ?p], Return None)"
    using uploadGame_retries [where env = env_read and path = ?p and status = 200 and body = "[]"]
    by (simp add: env_read_def)
  have 2: "uploadGame (\<lambda>n. ReadErr ''unexpected EOF'') ?p =
          ([UpRequest 1, UpSleep 4000000000, UpRequest 2, UpSleep 8000000000,
            UpRequest 3, UpSleep 16000000000],
           Return (Some ''UploadGame failed: Too many retries''))"
    using uploadGame_retries [where env = "\<lambda>n. ReadErr ''unexpected EOF''" and path = ?p]
    by simp
  have 3: "uploadGame (\<lambda>n. DoErr ''timeout'') ?p = ([UpRequest 1], Return (Some ''timeout''))"
    using uploadGame_retries [where env = "\<lambda>n. DoErr ''timeout''" and path = ?p and n = 1
        and e = "''timeout''"]
    by simp
  have 4: "uploadGame ?do2 ?p = ([UpRequest 1, UpSleep 4000000000, UpRequest 2], Return (Some ''timeout''))"
    using uploadGame_retries [where env = ?do2 and path = ?p and n = 2 and e = "''timeout''"]
    by simp
  have 5: "uploadGame ?bu3 ?p
       = ([UpRequest 1, UpSleep 4000000000, UpRequest 2, UpSleep 8000000000], Return (Some ''no file''))"
    using uploadGame_retries [where env = ?bu3 and path = ?p and n = 3 and e = "''no file''"]
    by simp
  have 6: "uploadGame ?rj3 ?p
       = ([UpRequest 1, UpSleep 4000000000, UpRequest 2, UpSleep 8000000000, UpRequest 3],
          Fatal ''You probably need the latest release'')"
    using uploadGame_retries [where env = ?rj3 and path = ?p and n = 3 and status = 400
        and body = "''please upgrade now''"] up
    by simp
  have 7: "uploadGame ?ok2 ?p
       = ([UpRequest 1, UpSleep 4000000000, UpRequest 2, UpCounted, UpRemove ?p], Return None)"
    using uploadGame_retries [where env = ?ok2 and path = ?p and n = 2 and status = 500
        and body = "''try later''"] nu
    by simp
  from 1 2 3 4 5 6 7 show ?thesis by blast
qed

text \<open>
  Claim C2 as stated fails for an upload whose first two attempts fail in
  \<open>httpClient.Do\<close> and whose third would succeed: the first failure is returned at
  once, after one request, with no sleep and no second or third attempt.
\<close>

theorem uploadGame_counterexample:
  "env_do 1 = DoErr ''timeout'' \<and> env_do 2 = DoErr ''timeout'' \<and> env_do 3 = Response 200 []
   \<and> uploadGame env_do ''game.gz'' = ([UpRequest 1], Return (Some ''timeout''))"
  by (simp add: uploadGame_unfold env_do_def)

subsection \<open>Match results\<close>

lemma pairStep_last:
  "curng s = Some c \<Longrightarrow> Flip c \<Longrightarrow> flipped s \<noteq> [] \<Longrightarrow>
     pairStep s = ([\<lparr>up_slot = c, up_game = last (flipped s),
                     up_result = - resultToNum (result (last (flipped s)))\<rparr>],
                   s\<lparr>flipped := butlast (flipped s), curng := None\<rparr>)"
  "curng s = Some c \<Longrightarrow> \<not> Flip c \<Longrightarrow> normal s \<noteq> [] \<Longrightarrow>
     pairStep s = ([\<lparr>up_slot = c, up_game = last (normal s),
                     up_result = resultToNum (result (last (normal s)))\<rparr>],
                   s\<lparr>normal := butlast (normal s), curng := None\<rparr>)"
  by (simp_all add: pairStep_def Let_def last_conv_nth butlast_conv_take)

lemma pairStep_none:
  "curng s = None \<or> (\<exists>c. curng s = Some c \<and> (if Flip c then flipped s = [] else normal s = []))
     \<Longrightarrow> pairStep s = ([], s)"
  by (auto simp: pairStep_def split: option.splits)

lemma pairStep_inv:
  assumes "bucketed G s"
  shows "bucketed G (snd (pairStep s)) \<and> (\<forall>u \<in> set (fst (pairStep s)). signedFor G u)"
proof (cases "curng s")
  case None
  then show ?thesis using assms by (simp add: pairStep_none)
next
  case (Some c)
  show ?thesis
  proof (cases "Flip c")
    case True
    show ?thesis
    proof (cases "flipped s = []")
      case True
      with Some \<open>Flip c\<close> assms show ?thesis by (simp add: pairStep_none)
    next
      case False
      then have "last (flipped s) \<in> set (flipped s)" by simp
      moreover have "set (butlast (flipped s)) \<subseteq> set (flipped s)"
        by (auto dest: in_set_butlastD)
      ultimately show ?thesis
        using pairStep_last(1) [OF Some True False] assms True
        by (auto simp: bucketed_def signedFor_def)
    qed
  next
    case nf: False
    show ?thesis
    proof (cases "normal s = []")
      case True
      with Some nf assms show ?thesis by (simp add: pairStep_none)
    next
      case False
      then have "last (normal s) \<in> set (normal s)" by simp
      moreover have "set (butlast (normal s)) \<subseteq> set (normal s)"
        by (auto dest: in_set_butlastD)
      ultimately show ?thesis
        using pairStep_last(2) [OF Some nf False] assms nf
        by (auto simp: bucketed_def signedFor_def)
    qed
  qed
qed

lemma matchLoop_inv:
  "matchLoop U posts ngr s = Return (s', ups, r) \<Longrightarrow> bucketed G s \<Longrightarrow>
     bucketed G s' \<and> (\<forall>u \<in> set ups. signedFor G u)"
proof (induction U posts ngr s arbitrary: s' ups r rule: matchLoop.induct)
  case (1 U posts ngr s)
  let ?s1 = "snd (pairStep s)" and ?u1 = "fst (pairStep s)"
  note inv1 = pairStep_inv [OF "1.prems"(2)]
  show ?case
  proof (cases "curng ?s1 \<noteq> None")
    case True
    with "1.prems"(1) have "s' = ?s1" "ups = ?u1"
      by (subst (asm) matchLoop.simps, simp add: Let_def)+
    with inv1 show ?thesis by simp
  next
    case False
    show ?thesis
    proof (cases "NextGame U (posts (calls ?s1))")
      case (Return x)
      obtain ng err where x: "x = (ng, err)" by (cases x)
      show ?thesis
      proof (cases err)
        case (Some e)
        with "1.prems"(1) False Return x
        have "s' = ?s1\<lparr>errCount := errCount ?s1 + 1, calls := calls ?s1 + 1\<rparr>" "ups = ?u1"
          by (subst (asm) matchLoop.simps, simp add: Let_def)+
        with inv1 show ?thesis by (simp add: bucketed_def)
      next
        case None
        let ?diff = "Type ng \<noteq> Type ngr \<or> Sha ng \<noteq> Sha ngr \<or> CandidateSha ng \<noteq> CandidateSha ngr"
        show ?thesis
        proof (cases ?diff)
          case True
          with "1.prems"(1) False Return x None
          have "s' = ?s1\<lparr>calls := calls ?s1 + 1, pendingNextGame := Some ng\<rparr>" "ups = ?u1"
            by (subst (asm) matchLoop.simps, simp add: Let_def)+
          with inv1 show ?thesis by (simp add: bucketed_def)
        next
          case nd: False
          let ?s2 = "?s1\<lparr>curng := Some ng, errCount := 0, calls := calls ?s1 + 1\<rparr>"
          from "1.prems"(1) False Return x None nd
          obtain ups' where rec: "matchLoop U posts ngr ?s2 = Return (s', ups', r)"
            and ups: "ups = ?u1 @ ups'"
            by (subst (asm) matchLoop.simps) (auto simp: Let_def bindP_Return_iff)
          have b2: "bucketed G ?s2" using inv1 by (simp add: bucketed_def)
          from "1.IH" [OF refl refl _ Return x [symmetric] None _ rec b2] False nd
          have "bucketed G s' \<and> (\<forall>u \<in> set ups'. signedFor G u)" by simp
          with inv1 ups show ?thesis by auto
        qed
      qed
    next
      case (Fatal m)
      with "1.prems"(1) False show ?thesis by (subst (asm) matchLoop.simps) (simp add: Let_def)
    next
      case (Exit n)
      with "1.prems"(1) False show ?thesis by (subst (asm) matchLoop.simps) (simp add: Let_def)
    next
      case (Panic m)
      with "1.prems"(1) False show ?thesis by (subst (asm) matchLoop.simps) (simp add: Let_def)
    qed
  qed
qed

lemma addGame_inv: "bucketed G s \<Longrightarrow> gi \<in> G \<Longrightarrow> bucketed G (addGame gi s)"
  by (auto simp: bucketed_def addGame_def)

lemma uploaderRun_inv:
  "uploaderRun U posts ngr s gis = Return (s', ups) \<Longrightarrow> bucketed G s \<Longrightarrow> set gis \<subseteq> G \<Longrightarrow>
     bucketed G s' \<and> (\<forall>u \<in> set ups. signedFor G u)"
proof (induction gis arbitrary: s s' ups)
  case Nil
  then show ?case by simp
next
  case (Cons gi gis)
  from Cons.prems(1) obtain s1 ups1 r where
    one: "matchLoop U posts ngr (addGame gi s) = Return (s1, ups1, r)" and
    rest: "(if r then Return (s1, ups1)
            else bindP (uploaderRun U posts ngr s1 gis) (\<lambda>(s'', ups'). Return (s'', ups1 @ ups')))
           = Return (s', ups)"
    by (auto simp: bindP_Return_iff onGameInfo_def)
  have "bucketed G (addGame gi s)" using Cons.prems(2,3) by (simp add: addGame_inv)
  note inv1 = matchLoop_inv [OF one this]
  show ?case
  proof (cases r)
    case True
    with rest inv1 show ?thesis by simp
  next
    case False
    with rest obtain ups2 where run: "uploaderRun U posts ngr s1 gis = Return (s', ups2)"
      and ups: "ups = ups1 @ ups2"
      by (auto simp: bindP_Return_iff)
    from Cons.IH [OF run] inv1 Cons.prems(3)
    have "bucketed G s' \<and> (\<forall>u \<in> set ups2. signedFor G u)" by simp
    with inv1 ups show ?thesis by auto
  qed
qed

lemma deliveries_subset:
  "set (deliveries steps waiting) \<subseteq> set waiting \<union> set (completed steps)"
proof (induction steps waiting rule: deliveries.induct)
  case (1 waiting)
  show ?case by simp
next
  case (2 gi steps waiting)
  then show ?case by (auto simp: completed_def)
next
  case (3 k steps waiting)
  have "set (take k waiting @ drop (Suc k) waiting) \<subseteq> set waiting"
    by (auto dest: in_set_takeD in_set_dropD)
  with 3 show ?case by (auto simp: completed_def)
qed

lemma deliveries_inOrder:
  "inOrder steps \<Longrightarrow> prefix (deliveries steps waiting) (waiting @ completed steps)"
proof (induction steps waiting rule: deliveries.induct)
  case (1 waiting)
  show ?case by simp
next
  case (2 gi steps waiting)
  then show ?case by (simp add: completed_def inOrder_def)
next
  case (3 k steps waiting)
  then have k: "k = 0" and io: "inOrder steps" by (simp_all add: inOrder_def)
  show ?case
  proof (cases waiting)
    case Nil
    with 3 k io show ?thesis by (simp add: completed_def)
  next
    case (Cons w ws)
    with 3 k io show ?thesis by (simp add: completed_def)
  qed
qed

text \<open>
  Claim C3, as the code has it. In a run of \<open>playMatch\<close> the uploader receives the
  completed games in the order in which their goroutines get through. Every upload is
  of a completed game; when the slot's \<open>Flip\<close> is true the game is one whose
  \<open>player1\<close> is black and the number sent is the negated \<open>resultToNum\<close> of its
  result, and when \<open>Flip\<close> is false the game is one whose \<open>player1\<close> is not black and
  the number is sent unnegated. \<open>resultToNum\<close> is 1 for \<open>whitewon\<close>, -1 for
  \<open>blackwon\<close> and 0 for every other result. The game paired with a slot is the last
  element of its bucket, and a received game is appended at the end of its bucket: the
  game taken is the one that the uploader received last among those waiting in the
  bucket. When the goroutines get through in the order in which they were started,
  the games are received in the order in which they completed.
\<close>

theorem match_pairing:
  "(uploaderRun U posts ngr (initUploader ngr) (deliveries steps []) = Return (s', ups) \<and> u \<in> set ups \<longrightarrow>
      up_game u \<in> set (completed steps) \<and>
      (if Flip (up_slot u)
       then player1 (up_game u) = ''black'' \<and> up_result u = - resultToNum (result (up_game u))
       else player1 (up_game u) \<noteq> ''black'' \<and> up_result u = resultToNum (result (up_game u))))
   \<and> resultToNum ''whitewon'' = 1 \<and> resultToNum ''blackwon'' = - 1
   \<and> (r \<noteq> ''whitewon'' \<and> r \<noteq> ''blackwon'' \<longrightarrow> resultToNum r = 0)
   \<and> (curng s = Some c \<and> Flip c \<and> flipped s \<noteq> [] \<longrightarrow>
        pairStep s = ([\<lparr>up_slot = c, up_game = last (flipped s),
                        up_result = - resultToNum (result (last (flipped s)))\<rparr>],
                      s\<lparr>flipped := butlast (flipped s), curng := None\<rparr>))
   \<and> (curng s = Some c \<and> \<not> Flip c \<and> normal s \<noteq> [] \<longrightarrow>
        pairStep s = ([\<lparr>up_slot = c, up_game = last (normal s),
                        up_result = resultToNum (result (last (normal s)))\<rparr>],
                      s\<lparr>normal := butlast (normal s), curng := None\<rparr>))
   \<and> flipped (addGame gi s) = (if player1 gi = ''black'' then flipped s @ [gi] else flipped s)
   \<and> normal (addGame gi s) = (if player1 gi = ''black'' then normal s else normal s @ [gi])
   \<and> (inOrder steps \<longrightarrow> prefix (deliveries steps []) (completed steps))"
proof -
  let ?gis = "deliveries steps []"
  have "bucketed (set ?gis) (initUploader ngr)"
    by (simp add: bucketed_def initUploader_def)
  then have "uploaderRun U posts ngr (initUploader ngr) ?gis = Return (s', ups) \<Longrightarrow> u \<in> set ups
    \<Longrightarrow> signedFor (set ?gis) u"
    using uploaderRun_inv [of U posts ngr "initUploader ngr" ?gis s' ups "set ?gis"] by simp
  moreover have "set ?gis \<subseteq> set (completed steps)"
    using deliveries_subset [of steps "[]"] by simp
  moreover have "inOrder steps \<longrightarrow> prefix (deliveries steps []) (completed steps)"
    using deliveries_inOrder [of steps "[]"] by simp
  moreover have "resultToNum ''whitewon'' = 1 \<and> resultToNum ''blackwon'' = - 1
     \<and> (r \<noteq> ''whitewon'' \<and> r \<noteq> ''blackwon'' \<longrightarrow> resultToNum r = 0)"
    by (simp add: resultToNum_def)
  ultimately show ?thesis
    by (auto simp: signedFor_def pairStep_last addGame_def)
qed

text \<open>
  The theorem on a concrete run, in which every game is handed over as soon as it
  completes. The task has \<open>Flip\<close> set; a drawn game played as white arrives and
  waits; two games played as black arrive, each is paired with a flipped slot and its
  result negated; the server then issues an unflipped slot, which takes the waiting
  game with the result 0.
\<close>

theorem match_pairing_witness:
  "uploaderRun slotUnmarshal (\<lambda>n. PostBody (if n = 0 then ''flip'' else ''noflip''))
     (slot0\<lparr>Flip := True\<rparr>) (initUploader (slot0\<lparr>Flip := True\<rparr>))
     (deliveries [Completed (game0 ''white'' ''drawn''), Delivered 0,
                  Completed (game0 ''black'' ''blackwon''), Delivered 0,
                  Completed (game0 ''black'' ''whitewon''), Delivered 0] [])
   = Return (\<lparr>curng = Some (slot0\<lparr>Flip := False\<rparr>), flipped = [], normal = [], errCount = 0,
               calls = 3, pendingNextGame = None\<rparr>,
             [\<lparr>up_slot = slot0\<lparr>Flip := True\<rparr>, up_game = game0 ''black'' ''blackwon'', up_result = 1\<rparr>,
              \<lparr>up_slot = slot0\<lparr>Flip := True\<rparr>, up_game = game0 ''black'' ''whitewon'', up_result = - 1\<rparr>,
              \<lparr>up_slot = slot0\<lparr>Flip := False\<rparr>, up_game = game0 ''white'' ''drawn'', up_result = 0\<rparr>])
   \<and> player1 (game0 ''white'' ''drawn'') \<noteq> ''black''
   \<and> 0 = resultToNum (result (game0 ''white'' ''drawn''))
   \<and> resultToNum ''drawn'' = 0
   \<and> pairStep ((initUploader (slot0\<lparr>Flip := True\<rparr>))
        \<lparr>flipped := [game0 ''black'' ''blackwon'', game0 ''black'' ''whitewon'']\<rparr>)
      = ([\<lparr>up_slot = slot0\<lparr>Flip := True\<rparr>, up_game = game0 ''black'' ''whitewon'', up_result = - 1\<rparr>],
         (initUploader (slot0\<lparr>Flip := True\<rparr>))
           \<lparr>flipped := [game0 ''black'' ''blackwon''], curng := None\<rparr>)
   \<and> pairStep ((initUploader (slot0\<lparr>Flip := False\<rparr>))
        \<lparr>normal := [game0 ''white'' ''blackwon'', game0 ''white'' ''drawn'']\<rparr>)
      = ([\<lparr>up_slot = slot0\<lparr>Flip := False\<rparr>, up_game = game0 ''white'' ''drawn'', up_result = 0\<rparr>],
         (initUploader (slot0\<lparr>Flip := False\<rparr>))
           \<lparr>normal := [game0 ''white'' ''blackwon''], curng := None\<rparr>)
   \<and> prefix (deliveries [Completed (game0 ''white'' ''drawn''), Delivered 0,
                  Completed (game0 ''black'' ''blackwon''), Delivered 0,
                  Completed (game0 ''black'' ''whitewon''), Delivered 0] [])
        [game0 ''white'' ''drawn'', game0 ''black'' ''blackwon'', game0 ''black'' ''whitewon'']"
proof -
  let ?posts = "\<lambda>n. PostBody (if n = 0 then ''flip'' else ''noflip'')"
  let ?ngr = "slot0\<lparr>Flip := True\<rparr>"
  let ?steps = "[Completed (game0 ''white'' ''drawn''), Delivered 0,
                 Completed (game0 ''black'' ''blackwon''), Delivered 0,
                 Completed (game0 ''black'' ''whitewon''), Delivered 0]"
  let ?s' = "\<lparr>curng = Some (slot0\<lparr>Flip := False\<rparr>), flipped = [], normal = [], errCount = 0,
               calls = 3, pendingNextGame = None\<rparr>"
  let ?u = "\<lparr>up_slot = slot0\<lparr>Flip := False\<rparr>, up_game = game0 ''white'' ''drawn'', up_result = 0\<rparr>"
  let ?ups = "[\<lparr>up_slot = slot0\<lparr>Flip := True\<rparr>, up_game = game0 ''black'' ''blackwon'', up_result = 1\<rparr>,
              \<lparr>up_slot = slot0\<lparr>Flip := True\<rparr>, up_game = game0 ''black'' ''whitewon'', up_result = - 1\<rparr>,
              ?u]"
  let ?sa = "(initUploader ?ngr)\<lparr>flipped := [game0 ''black'' ''blackwon'', game0 ''black'' ''whitewon'']\<rparr>"
  let ?sb = "(initUploader (slot0\<lparr>Flip := False\<rparr>))
                \<lparr>normal := [game0 ''white'' ''blackwon'', game0 ''white'' ''drawn'']\<rparr>"
  have run: "uploaderRun slotUnmarshal ?posts ?ngr (initUploader ?ngr) (deliveries ?steps [])
               = Return (?s', ?ups)"
    by code_simp
  have mem: "?u \<in> set ?ups" by simp
  have nf: "\<not> Flip (up_slot ?u)" by (simp add: slot0_def)
  have dr: "''drawn'' \<noteq> ''whitewon'' \<and> ''drawn'' \<noteq> ''blackwon''" by simp
  have st: "curng ?sa = Some ?ngr \<and> Flip ?ngr \<and> flipped ?sa \<noteq> []"
    by (simp add: initUploader_def)
  have st': "curng ?sb = Some (slot0\<lparr>Flip := False\<rparr>) \<and> \<not> Flip (slot0\<lparr>Flip := False\<rparr>) \<and> normal ?sb \<noteq> []"
    by (simp add: initUploader_def)
  have io: "inOrder ?steps" by (simp add: inOrder_def)
  have cp: "completed ?steps
     = [game0 ''white'' ''drawn'', game0 ''black'' ''blackwon'', game0 ''black'' ''whitewon'']"
    by (simp add: completed_def)
  note T1 = match_pairing [where U = slotUnmarshal and posts = ?posts and ngr = ?ngr and steps = ?steps
      and s' = ?s' and ups = ?ups and u = ?u and r = "''drawn''" and s = ?sa and c = ?ngr]
  note T2 = match_pairing [where U = slotUnmarshal and posts = ?posts and ngr = ?ngr and steps = ?steps
      and s' = ?s' and ups = ?ups and u = ?u and r = "''drawn''" and s = ?sb
      and c = "slot0\<lparr>Flip := False\<rparr>"]
  have a: "player1 (game0 ''white'' ''drawn'') \<noteq> ''black''
           \<and> 0 = resultToNum (result (game0 ''white'' ''drawn''))"
    using T1 run mem nf by simp
  have b: "resultToNum ''drawn'' = 0" using T1 dr by blast
  have c: "pairStep ?sa = ([\<lparr>up_slot = ?ngr, up_game = last (flipped ?sa),
                        up_result = - resultToNum (result (last (flipped ?sa)))\<rparr>],
                      ?sa\<lparr>flipped := butlast (flipped ?sa), curng := None\<rparr>)"
    using T1 st by blast
  have d: "pairStep ?sb = ([\<lparr>up_slot = slot0\<lparr>Flip := False\<rparr>, up_game = last (normal ?sb),
                        up_result = resultToNum (result (last (normal ?sb)))\<rparr>],
                      ?sb\<lparr>normal := butlast (normal ?sb), curng := None\<rparr>)"
    using T2 st' by blast
  have e: "prefix (deliveries ?steps []) (completed ?steps)" using T1 io by blast
  show ?thesis
    using run a b c d e [unfolded cp] by (simp add: game0_def resultToNum_def)
qed

text \<open>
  Claim C3 as stated fails on a run in which two games played as black complete while
  the slot asks for a game played as white, and the goroutine of the second gets
  through before that of the first. Once a game played as white has taken the slot
  and the server issues a flipped slot, that slot takes the game that completed
  first, although the game that completed after it waits in the same bucket.
\<close>

theorem match_pairing_counterexample:
  "completed [Completed (game0 ''black'' ''whitewon''), Completed (game0 ''black'' ''blackwon''),
              Delivered 1, Delivered 0, Completed (game0 ''white'' ''whitewon''), Delivered 0]
     = [game0 ''black'' ''whitewon'', game0 ''black'' ''blackwon'', game0 ''white'' ''whitewon'']
   \<and> uploaderRun slotUnmarshal (\<lambda>n. PostBody (if n = 0 then ''flip'' else ''noflip''))
       (slot0\<lparr>Flip := False\<rparr>) (initUploader (slot0\<lparr>Flip := False\<rparr>))
       (deliveries [Completed (game0 ''black'' ''whitewon''), Completed (game0 ''black'' ''blackwon''),
                    Delivered 1, Delivered 0, Completed (game0 ''white'' ''whitewon''), Delivered 0] [])
     = Return (\<lparr>curng = Some (slot0\<lparr>Flip := False\<rparr>), flipped = [game0 ''black'' ''blackwon''],
                 normal = [], errCount = 0, calls = 2, pendingNextGame = None\<rparr>,
               [\<lparr>up_slot = slot0\<lparr>Flip := False\<rparr>, up_game = game0 ''white'' ''whitewon'', up_result = 1\<rparr>,
                \<lparr>up_slot = slot0\<lparr>Flip := True\<rparr>, up_game = game0 ''black'' ''whitewon'',
                 up_result = - 1\<rparr>])"
  by code_simp

subsection \<open>The reader and the resign threshold\<close>













subsection \<open>Malformed lines\<close>



lemma slice_outcome:
  "(\<exists>x. slice s lo hi = Return x) \<or> slice s lo hi = Panic ''slice bounds out of range''"
  by (simp add: slice_def)











subsection \<open>The network cache\<close>

lemma removeLoop_sound:
  "f \<in> set (fst (removeLoop E sha keepTime files)) \<Longrightarrow>
     f \<in> set files \<and> Name f \<noteq> sha \<and> ParseDuration E keepTime \<le> Age f"
  by (induction files) (auto split: if_splits prod.splits)

lemma removeLoop_complete:
  "\<forall>f \<in> set files. \<not> RemoveAllFails E (Name f) \<Longrightarrow>
     removeLoop E sha keepTime files =
       (filter (\<lambda>f. Name f \<noteq> sha \<and> ParseDuration E keepTime \<le> Age f) files, None)"
  by (induction files) (auto split: if_splits prod.splits)

lemma cachePath_inj: "cachePath a = cachePath b \<longleftrightarrow> a = b"
  by (simp add: cachePath_def)

lemma checkValidNetwork_cases:
  "checkValidNetwork E fs sha = (fs', p, err) \<Longrightarrow>
     p = cachePath sha \<and>
     (case err of
        None \<Rightarrow> fs' = fs \<and> (\<exists>content bytes. fs p = Some content \<and>
                   gunzip E content = Some (bytes, True) \<and> sha256hex E bytes = sha)
      | Some e \<Rightarrow> fs' = fs(p := None) \<and>
          \<not> (\<exists>content bytes. fs p = Some content \<and>
                   gunzip E content = Some (bytes, True) \<and> sha256hex E bytes = sha))"
  by (auto simp: checkValidNetwork_def Let_def split: option.splits prod.splits if_splits)

lemma unlink_keeps:
  "\<forall>f \<in> set removed. Name f \<noteq> sha \<Longrightarrow> unlink fs removed (cachePath sha) = fs (cachePath sha)"
  by (auto simp: unlink_def cachePath_inj)

lemma unlink_upd:
  "unlink (fs(p := None)) removed = (unlink fs removed)(p := None)"
  by (auto simp: unlink_def)

lemma evict_keeps:
  "unlink fs (fst (removeAllExcept E sha keepTime)) (cachePath sha) = fs (cachePath sha)"
proof (rule unlink_keeps, rule ballI)
  fix f assume "f \<in> set (fst (removeAllExcept E sha keepTime))"
  then obtain fs where "f \<in> set (fst (removeLoop E sha keepTime fs))"
    by (auto simp: removeAllExcept_def split: option.splits)
  then show "Name f \<noteq> sha" using removeLoop_sound by blast
qed

lemma checkValidNetwork_mismatch:
  "fs (cachePath sha) = Some content \<Longrightarrow> gunzip E content = Some (bytes, ok) \<Longrightarrow>
   sha256hex E bytes \<noteq> sha \<Longrightarrow>
   checkValidNetwork E fs sha =
     (fs(cachePath sha := None), cachePath sha, Some (ShaMismatch sha (sha256hex E bytes)))"
  by (auto simp: checkValidNetwork_def Let_def)

lemma checkValidNetwork_absent:
  "fs (cachePath sha) = None \<Longrightarrow> checkValidNetwork E fs sha = (fs, cachePath sha, Some StatErr)"
  by (simp add: checkValidNetwork_def Let_def)

lemma getNetwork_unfold:
  "getNetwork E fs sha keepTime =
     (case checkValidNetwork E
             (if keepTime \<noteq> inf then unlink fs (fst (removeAllExcept E sha keepTime)) else fs) sha of
        (fs2, path, err) \<Rightarrow>
          if err = None then (fs2, 0, Return (path, None))
          else (case TryLock E of
                 NewFailed \<Rightarrow> (fs2, 0, Fatal ''Cannot init lockfile'')
               | LockFailed \<Rightarrow> (fs2, 0, Fatal ''Unable to lock'')
               | Busy \<Rightarrow> (fs2, 0, Return ([], Some ErrBusy))
               | Acquired \<Rightarrow>
                   (case Download E of
                      DownloadFailed e \<Rightarrow> (fs2, 1, Return ([], Some (DownloadErr e)))
                    | Downloaded bytes \<Rightarrow>
                        (case checkValidNetwork E (fs2(path \<mapsto> bytes)) sha of
                           (fs3, path', err') \<Rightarrow> (fs3, 1, Return (path', err'))))))"
  unfolding getNetwork_def Let_def ..

text \<open>
  Claim C5, as the code has it. With the policy \<open>4h\<close> (parsed as four hours),
  every entry that \<open>removeAllExcept\<close> removes is a listed entry whose name differs
  from the identifier being resolved and whose age is at least four hours: the entry
  named by the identifier is never removed, whatever its age, and no entry younger
  than four hours is removed. When the directory can be read and no removal fails,
  the entries removed are exactly those.
\<close>

theorem removeAllExcept_4h:
  assumes "ParseDuration E ''4h'' = 14400000000000"
  shows "(\<forall>f \<in> set (fst (removeAllExcept E sha ''4h'')).
            Name f \<noteq> sha \<and> 14400000000000 \<le> Age f \<and> (\<exists>files. ReadDir E = Some files \<and> f \<in> set files))
     \<and> (ReadDir E = Some files \<and> (\<forall>f \<in> set files. \<not> RemoveAllFails E (Name f)) \<longrightarrow>
           removeAllExcept E sha ''4h'' =
             (filter (\<lambda>f. Name f \<noteq> sha \<and> 14400000000000 \<le> Age f) files, None))"
proof -
  have 1: "Name f \<noteq> sha \<and> 14400000000000 \<le> Age f \<and> (\<exists>files. ReadDir E = Some files \<and> f \<in> set files)"
    if "f \<in> set (fst (removeAllExcept E sha ''4h''))" for f
  proof -
    from that obtain fs where "ReadDir E = Some fs" "f \<in> set (fst (removeLoop E sha ''4h'' fs))"
      by (auto simp: removeAllExcept_def split: option.splits)
    with removeLoop_sound [of f E sha "''4h''" fs] assms show ?thesis by simp
  qed
  have 2: "removeAllExcept E sha ''4h'' =
             (filter (\<lambda>f. Name f \<noteq> sha \<and> 14400000000000 \<le> Age f) files, None)"
    if "ReadDir E = Some files \<and> (\<forall>f \<in> set files. \<not> RemoveAllFails E (Name f))"
    using that removeLoop_complete [of files E sha "''4h''"] assms
    by (simp add: removeAllExcept_def)
  from 1 2 show ?thesis by blast
qed


text \<open>
  The theorem on a directory in which every removal succeeds: the entry of one hour
  and the entry named \<open>S\<close> stay, the entries of five hours and of exactly four hours
  go.
\<close>

theorem removeAllExcept_4h_witness:
  "removeAllExcept
     (cacheEnv0\<lparr>ReadDir := Some [\<lparr>Name = ''young'', Age = 3600000000000\<rparr>,
                                  \<lparr>Name = ''S'', Age = 36000000000000\<rparr>,
                                  \<lparr>Name = ''old'', Age = 18000000000000\<rparr>,
                                  \<lparr>Name = ''edge'', Age = 14400000000000\<rparr>],
                 RemoveAllFails := (\<lambda>n. False)\<rparr>) ''S'' ''4h''
   = ([\<lparr>Name = ''old'', Age = 18000000000000\<rparr>, \<lparr>Name = ''edge'', Age = 14400000000000\<rparr>], None)"
proof -
  let ?files = "[\<lparr>Name = ''young'', Age = 3600000000000\<rparr>, \<lparr>Name = ''S'', Age = 36000000000000\<rparr>,
                 \<lparr>Name = ''old'', Age = 18000000000000\<rparr>, \<lparr>Name = ''edge'', Age = 14400000000000\<rparr>]"
  let ?E = "cacheEnv0\<lparr>ReadDir := Some ?files, RemoveAllFails := (\<lambda>n. False)\<rparr>"
  have h: "ParseDuration ?E ''4h'' = 14400000000000" by (simp add: cacheEnv0_def)
  have d: "ReadDir ?E = Some ?files \<and> (\<forall>f \<in> set ?files. \<not> RemoveAllFails ?E (Name f))"
    by simp
  from removeAllExcept_4h [OF h, of "''S''" ?files] d show ?thesis by simp
qed

text \<open>
  Claim C5 as stated fails twice on the directory of \<open>cacheEnv0\<close>: the entry \<open>a\<close> is
  removed although its age is four hours and no more, and the entry \<open>c\<close>, six hours
  old and not the identifier, stays, because the removal of \<open>b\<close> failed and the loop
  returned.
\<close>

theorem removeAllExcept_4h_counterexample:
  "ParseDuration cacheEnv0 ''4h'' = 14400000000000
   \<and> ReadDir cacheEnv0 = Some [\<lparr>Name = ''a'', Age = 14400000000000\<rparr>,
                                \<lparr>Name = ''b'', Age = 18000000000000\<rparr>,
                                \<lparr>Name = ''c'', Age = 21600000000000\<rparr>]
   \<and> removeAllExcept cacheEnv0 ''S'' ''4h''
       = ([\<lparr>Name = ''a'', Age = 14400000000000\<rparr>], Some (RemoveErr ''b''))"
  by (simp add: cacheEnv0_def removeAllExcept_def)

text \<open>
  Claim C6. When \<open>getNetwork\<close> returns a path and a nil error, the path is the
  cache path of the identifier and the file there decompresses, without a read
  error, to bytes whose digest is the identifier. When the cached file decompresses
  to bytes with another digest, \<open>checkValidNetwork\<close> deletes it and returns the
  mismatch error, and \<open>getNetwork\<close> goes on exactly as it would had the file been
  absent.
\<close>

theorem getNetwork_verified:
  "(getNetwork E fs sha keepTime = (fs', n, Return (p, None)) \<longrightarrow>
      p = cachePath sha \<and>
      (\<exists>content bytes. fs' p = Some content \<and> gunzip E content = Some (bytes, True)
          \<and> sha256hex E bytes = sha))
   \<and> (fs (cachePath sha) = Some content \<and> gunzip E content = Some (bytes, ok)
        \<and> sha256hex E bytes \<noteq> sha \<longrightarrow>
        checkValidNetwork E fs sha =
          (fs(cachePath sha := None), cachePath sha, Some (ShaMismatch sha (sha256hex E bytes)))
        \<and> getNetwork E fs sha keepTime = getNetwork E (fs(cachePath sha := None)) sha keepTime)"
proof -
  define fs1 where "fs1 = (if keepTime \<noteq> inf then unlink fs (fst (removeAllExcept E sha keepTime)) else fs)"
  define gs1 where "gs1 = (if keepTime \<noteq> inf
                then unlink (fs(cachePath sha := None)) (fst (removeAllExcept E sha keepTime))
                else fs(cachePath sha := None))"
  have 1: "p = cachePath sha \<and>
      (\<exists>content bytes. fs' p = Some content \<and> gunzip E content = Some (bytes, True)
          \<and> sha256hex E bytes = sha)"
    if a: "getNetwork E fs sha keepTime = (fs', n, Return (p, None))"
  proof -
    obtain fs2 path err where c1: "checkValidNetwork E fs1 sha = (fs2, path, err)"
      by (cases "checkValidNetwork E fs1 sha") auto
    note k1 = checkValidNetwork_cases [OF c1]
    note a' = a [unfolded getNetwork_unfold, folded fs1_def, unfolded c1 prod.case]
    show ?thesis
    proof (cases err)
      case None
      with a' have "fs' = fs2" "p = path" by simp_all
      with k1 None show ?thesis by auto
    next
      case (Some e)
      with a' obtain b where d: "Download E = Downloaded b" and l: "TryLock E = Acquired"
        by (auto split: lock_result.splits download_result.splits prod.splits)
      obtain fs3 path' err' where c2: "checkValidNetwork E (fs2(path \<mapsto> b)) sha = (fs3, path', err')"
        by (cases "checkValidNetwork E (fs2(path \<mapsto> b)) sha") auto
      with a' Some d l have "fs' = fs3" "p = path'" "err' = None"
        by simp_all
      with checkValidNetwork_cases [OF c2] show ?thesis by auto
    qed
  qed
  have 2: "checkValidNetwork E fs sha =
          (fs(cachePath sha := None), cachePath sha, Some (ShaMismatch sha (sha256hex E bytes)))
        \<and> getNetwork E fs sha keepTime = getNetwork E (fs(cachePath sha := None)) sha keepTime"
    if b: "fs (cachePath sha) = Some content \<and> gunzip E content = Some (bytes, ok)
        \<and> sha256hex E bytes \<noteq> sha"
  proof -
    have g: "gs1 = fs1(cachePath sha := None)" by (simp add: gs1_def fs1_def unlink_upd)
    have f1: "fs1 (cachePath sha) = Some content" using b by (simp add: fs1_def evict_keeps)
    have x: "checkValidNetwork E fs1 sha =
          (fs1(cachePath sha := None), cachePath sha, Some (ShaMismatch sha (sha256hex E bytes)))"
      using b f1 by (intro checkValidNetwork_mismatch) auto
    have y: "checkValidNetwork E gs1 sha = (fs1(cachePath sha := None), cachePath sha, Some StatErr)"
      unfolding g using checkValidNetwork_absent [of "fs1(cachePath sha := None)" sha E] by simp
    have "getNetwork E fs sha keepTime = getNetwork E (fs(cachePath sha := None)) sha keepTime"
      unfolding getNetwork_unfold
      unfolding fs1_def [symmetric] gs1_def [symmetric] x y by simp
    with checkValidNetwork_mismatch [of fs sha content E bytes ok] b show ?thesis by simp
  qed
  from 1 2 show ?thesis by blast
qed


text \<open>
  The theorem on the stale cache, with the lock free: the stale file is deleted,
  the download puts the right file in place, and the path is returned.
\<close>

theorem getNetwork_verified_witness:
  "snd (getNetwork (cacheEnv0\<lparr>TryLock := Acquired\<rparr>) staleCache ''sha-net'' inf)
     = (1, Return (cachePath ''sha-net'', None))
   \<and> fst (getNetwork (cacheEnv0\<lparr>TryLock := Acquired\<rparr>) staleCache ''sha-net'' inf)
       (cachePath ''sha-net'') = Some ''gz:net''
   \<and> gunzip cacheEnv0 ''gz:net'' = Some (''net'', True) \<and> sha256hex cacheEnv0 ''net'' = ''sha-net''
   \<and> checkValidNetwork cacheEnv0 staleCache ''sha-net''
       = (staleCache(cachePath ''sha-net'' := None), cachePath ''sha-net'',
          Some (ShaMismatch ''sha-net'' ''sha-other''))"
proof -
  let ?E = "cacheEnv0\<lparr>TryLock := Acquired\<rparr>"
  have s: "staleCache (cachePath ''sha-net'') = Some ''gz:other''"
      "gunzip cacheEnv0 ''gz:other'' = Some (''other'', True)"
      "sha256hex cacheEnv0 ''other'' \<noteq> ''sha-net''"
    by (simp_all add: staleCache_def cacheEnv0_def toyGunzip_def toyDigest_def)
  have r: "getNetwork ?E staleCache ''sha-net'' inf
     = ([cachePath ''sha-net'' \<mapsto> ''gz:net''], 1, Return (cachePath ''sha-net'', None))"
    by (simp add: getNetwork_def checkValidNetwork_def staleCache_def cacheEnv0_def
        toyGunzip_def toyDigest_def Let_def)
  from getNetwork_verified [of ?E staleCache "''sha-net''" inf
      "[cachePath ''sha-net'' \<mapsto> ''gz:net'']" 1 "cachePath ''sha-net''" "''gz:other''"]
    getNetwork_verified [of cacheEnv0 staleCache "''sha-net''" inf
      "[cachePath ''sha-net'' \<mapsto> ''gz:net'']" 1 "cachePath ''sha-net''" "''gz:other''" "''other''" True]
    r s
  show ?thesis by (simp add: cacheEnv0_def toyGunzip_def toyDigest_def)
qed

lemma removeAllExcept_TryLock:
  "removeAllExcept (E\<lparr>TryLock := t\<rparr>) sha keepTime = removeAllExcept E sha keepTime"
proof -
  have "removeLoop (E\<lparr>TryLock := t\<rparr>) sha keepTime files = removeLoop E sha keepTime files" for files
    by (induction files) auto
  then show ?thesis by (simp add: removeAllExcept_def split: option.splits)
qed

lemma checkValidNetwork_TryLock:
  "checkValidNetwork (E\<lparr>TryLock := t\<rparr>) fs sha = checkValidNetwork E fs sha"
  by (simp add: checkValidNetwork_def Let_def split: option.splits prod.splits)

lemma getNetwork_unverified:
  assumes "\<not> (\<exists>content bytes. fs (cachePath sha) = Some content \<and>
                 gunzip E content = Some (bytes, True) \<and> sha256hex E bytes = sha)"
  shows "getNetwork E fs sha keepTime =
     (case TryLock E of
        NewFailed \<Rightarrow> ((evicted E fs sha keepTime)(cachePath sha := None), 0, Fatal ''Cannot init lockfile'')
      | LockFailed \<Rightarrow> ((evicted E fs sha keepTime)(cachePath sha := None), 0, Fatal ''Unable to lock'')
      | Busy \<Rightarrow> ((evicted E fs sha keepTime)(cachePath sha := None), 0, Return ([], Some ErrBusy))
      | Acquired \<Rightarrow>
          (case Download E of
             DownloadFailed e \<Rightarrow>
               ((evicted E fs sha keepTime)(cachePath sha := None), 1, Return ([], Some (DownloadErr e)))
           | Downloaded bytes \<Rightarrow>
               (case checkValidNetwork E ((evicted E fs sha keepTime)(cachePath sha \<mapsto> bytes)) sha of
                  (fs3, path', err') \<Rightarrow> (fs3, 1, Return (path', err')))))"
proof -
  define fs1 where "fs1 = evicted E fs sha keepTime"
  obtain fs2 path err where c1: "checkValidNetwork E fs1 sha = (fs2, path, err)"
    by (cases "checkValidNetwork E fs1 sha") auto
  have same: "fs1 (cachePath sha) = fs (cachePath sha)" by (simp add: fs1_def evicted_def evict_keeps)
  note k1 = checkValidNetwork_cases [OF c1]
  have "err \<noteq> None"
  proof
    assume "err = None"
    with k1 obtain content bytes where "fs1 (cachePath sha) = Some content"
        "gunzip E content = Some (bytes, True)" "sha256hex E bytes = sha"
      by auto
    with same have "\<exists>content bytes. fs (cachePath sha) = Some content \<and>
                 gunzip E content = Some (bytes, True) \<and> sha256hex E bytes = sha"
      by metis
    with assms(1) show False by blast
  qed
  then obtain e where err: "err = Some e" by auto
  with k1 have fs2: "fs2 = fs1(cachePath sha := None)" and path: "path = cachePath sha" by simp_all
  have up: "(fs1(cachePath sha := None))(cachePath sha \<mapsto> b) = fs1(cachePath sha \<mapsto> b)" for b
    by simp
  have f: "(if keepTime \<noteq> inf then unlink fs (fst (removeAllExcept E sha keepTime)) else fs) = fs1"
    by (simp add: fs1_def evicted_def)
  show ?thesis
    unfolding getNetwork_unfold f c1 fs1_def [symmetric]
    using err fs2 path
    by (simp add: up split: lock_result.splits download_result.splits)
qed

lemma evicted_sub: "evicted E fs sha keepTime p = None \<or> evicted E fs sha keepTime p = fs p"
  by (simp add: evicted_def unlink_def)

lemma evicted_TryLock: "evicted (E\<lparr>TryLock := t\<rparr>) fs sha keepTime = evicted E fs sha keepTime"
  by (simp add: evicted_def removeAllExcept_TryLock)

lemma lockPath_neq: "lockPath sha \<noteq> cachePath sha"
  by (simp add: lockPath_def cachePath_def)

text \<open>
  Claim C7, as the code has it. When the cache holds no verified copy of the
  identifier and \<open>TryLock\<close> reports the lock busy, \<open>getNetwork\<close> returns the busy
  error, issues no download request, leaves no file at the identifier's path, and
  writes no file anywhere (every path is unchanged or deleted). \<open>TryLock\<close> is asked
  after the retention eviction. An attempt that meets the lock file of another
  process, and whose eviction leaves that file in place, returns the busy error
  without a download; the eviction leaves the file in place when the policy is to
  keep forever, or when it removes no entry named \<open><sha>.lck\<close>. But the eviction
  treats the lock file as any other entry: when the directory can be read and no
  removal fails, a lock file as old as the retention duration is removed. The attempt
  then finds no lock, acquires it, and issues a download request of its own.
\<close>

theorem getNetwork_busy:
  assumes "\<not> (\<exists>content bytes. fs (cachePath sha) = Some content \<and>
                 gunzip E content = Some (bytes, True) \<and> sha256hex E bytes = sha)"
  shows "(TryLock E = Busy \<longrightarrow>
            getNetwork E fs sha keepTime =
              ((if keepTime \<noteq> inf then unlink fs (fst (removeAllExcept E sha keepTime)) else fs)
                 (cachePath sha := None),
               0, Return ([], Some ErrBusy))
          \<and> fst (getNetwork E fs sha keepTime) (cachePath sha) = None
          \<and> (\<forall>p. fst (getNetwork E fs sha keepTime) p = None
                   \<or> fst (getNetwork E fs sha keepTime) p = fs p))
     \<and> (fs (lockPath sha) = Some owner \<and> owner \<noteq> me
          \<and> evicted E fs sha keepTime (lockPath sha) = fs (lockPath sha) \<longrightarrow>
            getNetworkAs me E fs sha keepTime =
              ((evicted E fs sha keepTime)(cachePath sha := None), 0, Return ([], Some ErrBusy)))
     \<and> (keepTime = inf \<or> (\<forall>f \<in> set (fst (removeAllExcept E sha keepTime)). Name f \<noteq> sha @ ''.lck'') \<longrightarrow>
            evicted E fs sha keepTime (lockPath sha) = fs (lockPath sha))
     \<and> (ReadDir E = Some files \<and> (\<forall>f' \<in> set files. \<not> RemoveAllFails E (Name f'))
          \<and> f \<in> set files \<and> Name f = sha @ ''.lck'' \<and> ParseDuration E keepTime \<le> Age f \<longrightarrow>
            f \<in> set (fst (removeAllExcept E sha keepTime)))
     \<and> (keepTime \<noteq> inf \<and> f \<in> set (fst (removeAllExcept E sha keepTime)) \<and> Name f = sha @ ''.lck'' \<longrightarrow>
            evicted E fs sha keepTime (lockPath sha) = None)
     \<and> (evicted E fs sha keepTime (lockPath sha) = None \<longrightarrow>
            fst (snd (getNetworkAs me E fs sha keepTime)) = 1)"
proof -
  let ?E' = "E\<lparr>TryLock := tryLockFile (evicted E fs sha keepTime) sha me\<rparr>"
  have nv': "\<not> (\<exists>content bytes. fs (cachePath sha) = Some content \<and>
                 gunzip ?E' content = Some (bytes, True) \<and> sha256hex ?E' bytes = sha)"
    using assms by simp
  note u = getNetwork_unverified [where E = E and fs = fs and sha = sha and keepTime = keepTime,
      OF assms]
  note u' = getNetwork_unverified [where E = ?E' and fs = fs and sha = sha and keepTime = keepTime,
      OF nv', unfolded evicted_TryLock checkValidNetwork_TryLock]
  have A: "getNetwork E fs sha keepTime =
              ((if keepTime \<noteq> inf then unlink fs (fst (removeAllExcept E sha keepTime)) else fs)
                 (cachePath sha := None),
               0, Return ([], Some ErrBusy))
          \<and> fst (getNetwork E fs sha keepTime) (cachePath sha) = None
          \<and> (\<forall>p. fst (getNetwork E fs sha keepTime) p = None
                   \<or> fst (getNetwork E fs sha keepTime) p = fs p)"
    if b: "TryLock E = Busy"
  proof -
    have eq: "getNetwork E fs sha keepTime =
                ((evicted E fs sha keepTime)(cachePath sha := None), 0, Return ([], Some ErrBusy))"
      using u b by simp
    have e1: "(if keepTime \<noteq> inf then unlink fs (fst (removeAllExcept E sha keepTime)) else fs)
                = evicted E fs sha keepTime"
      by (simp add: evicted_def)
    have s: "((evicted E fs sha keepTime)(cachePath sha := None)) p = None
             \<or> ((evicted E fs sha keepTime)(cachePath sha := None)) p = fs p" for p
      using evicted_sub [of E fs sha keepTime p] by (cases "p = cachePath sha") simp_all
    show ?thesis
      unfolding eq e1 using s by simp
  qed
  have B: "getNetworkAs me E fs sha keepTime =
              ((evicted E fs sha keepTime)(cachePath sha := None), 0, Return ([], Some ErrBusy))"
    if h: "fs (lockPath sha) = Some owner \<and> owner \<noteq> me
          \<and> evicted E fs sha keepTime (lockPath sha) = fs (lockPath sha)"
  proof -
    have "TryLock ?E' = Busy" using h by (simp add: tryLockFile_def)
    with u' show ?thesis by (simp add: getNetworkAs_def)
  qed
  have C: "evicted E fs sha keepTime (lockPath sha) = fs (lockPath sha)"
    if h: "keepTime = inf \<or> (\<forall>f \<in> set (fst (removeAllExcept E sha keepTime)). Name f \<noteq> sha @ ''.lck'')"
    using h by (auto simp: evicted_def unlink_def lockPath_def cachePath_inj)
  have D: "evicted E fs sha keepTime (lockPath sha) = None"
    if h: "keepTime \<noteq> inf \<and> f \<in> set (fst (removeAllExcept E sha keepTime)) \<and> Name f = sha @ ''.lck''"
  proof -
    from h have "cachePath (sha @ ''.lck'')
        \<in> set (map (\<lambda>f. cachePath (Name f)) (fst (removeAllExcept E sha keepTime)))"
      by force
    with h show ?thesis by (simp add: evicted_def unlink_def lockPath_def)
  qed
  have F: "fst (snd (getNetworkAs me E fs sha keepTime)) = 1"
    if h: "evicted E fs sha keepTime (lockPath sha) = None"
  proof -
    have "TryLock ?E' = Acquired" using h by (simp add: tryLockFile_def)
    with u' show ?thesis
      by (simp add: getNetworkAs_def split: download_result.splits prod.splits)
  qed
  have G: "f \<in> set (fst (removeAllExcept E sha keepTime))"
    if h: "ReadDir E = Some files \<and> (\<forall>f' \<in> set files. \<not> RemoveAllFails E (Name f'))
          \<and> f \<in> set files \<and> Name f = sha @ ''.lck'' \<and> ParseDuration E keepTime \<le> Age f"
  proof -
    from h have "removeAllExcept E sha keepTime =
        (filter (\<lambda>f. Name f \<noteq> sha \<and> ParseDuration E keepTime \<le> Age f) files, None)"
      using removeLoop_complete [of files E sha keepTime] by (simp add: removeAllExcept_def)
    with h show ?thesis by simp
  qed
  from A B C D F G show ?thesis by blast
qed

text \<open>
  The theorem on the stale cache: with \<open>TryLock\<close> busy; with the lock file of
  another process one hour old, which the policy \<open>4h\<close> leaves in place; and with that
  lock file five hours old, which the policy \<open>4h\<close> removes.
\<close>

theorem getNetwork_busy_witness:
  "snd (getNetwork cacheEnv0 staleCache ''sha-net'' ''4h'') = (0, Return ([], Some ErrBusy))
   \<and> fst (getNetwork cacheEnv0 staleCache ''sha-net'' ''4h'') (cachePath ''sha-net'') = None
   \<and> snd (getNetworkAs ''B''
        (cacheEnv0\<lparr>ReadDir := Some [\<lparr>Name = ''sha-net.lck'', Age = 3600000000000\<rparr>],
                    RemoveAllFails := (\<lambda>n. False)\<rparr>)
        (holding staleCache ''sha-net'' ''A'') ''sha-net'' ''4h'')
       = (0, Return ([], Some ErrBusy))
   \<and> fst (snd (getNetworkAs ''B''
        (cacheEnv0\<lparr>ReadDir := Some [\<lparr>Name = ''sha-net.lck'', Age = 18000000000000\<rparr>],
                    RemoveAllFails := (\<lambda>n. False)\<rparr>)
        (holding staleCache ''sha-net'' ''A'') ''sha-net'' ''4h'')) = 1"
proof -
  let ?Ey = "cacheEnv0\<lparr>ReadDir := Some [\<lparr>Name = ''sha-net.lck'', Age = 3600000000000\<rparr>],
                        RemoveAllFails := (\<lambda>n. False)\<rparr>"
  let ?Eo = "cacheEnv0\<lparr>ReadDir := Some [\<lparr>Name = ''sha-net.lck'', Age = 18000000000000\<rparr>],
                        RemoveAllFails := (\<lambda>n. False)\<rparr>"
  let ?fs = "holding staleCache ''sha-net'' ''A''"
  have a: "\<not> (\<exists>content bytes. staleCache (cachePath ''sha-net'') = Some content \<and>
                 gunzip cacheEnv0 content = Some (bytes, True) \<and> sha256hex cacheEnv0 bytes = ''sha-net'')"
    by (simp add: staleCache_def cacheEnv0_def toyGunzip_def toyDigest_def)
  have ay: "\<not> (\<exists>content bytes. ?fs (cachePath ''sha-net'') = Some content \<and>
                 gunzip ?Ey content = Some (bytes, True) \<and> sha256hex ?Ey bytes = ''sha-net'')"
    by (simp add: holding_def lockPath_def cachePath_def staleCache_def cacheEnv0_def
        toyGunzip_def toyDigest_def)
  have ao: "\<not> (\<exists>content bytes. ?fs (cachePath ''sha-net'') = Some content \<and>
                 gunzip ?Eo content = Some (bytes, True) \<and> sha256hex ?Eo bytes = ''sha-net'')"
    by (simp add: holding_def lockPath_def cachePath_def staleCache_def cacheEnv0_def
        toyGunzip_def toyDigest_def)
  have b: "TryLock cacheEnv0 = Busy" by (simp add: cacheEnv0_def)
  have own: "?fs (lockPath ''sha-net'') = Some ''A'' \<and> ''A'' \<noteq> ''B''"
    by (simp add: holding_def)
  have young: "\<forall>f \<in> set (fst (removeAllExcept ?Ey ''sha-net'' ''4h'')). Name f \<noteq> ''sha-net'' @ ''.lck''"
    by (simp add: removeAllExcept_def cacheEnv0_def)
  have listed: "ReadDir ?Eo = Some [\<lparr>Name = ''sha-net.lck'', Age = 18000000000000\<rparr>]
      \<and> (\<forall>f' \<in> set [\<lparr>Name = ''sha-net.lck'', Age = 18000000000000\<rparr>]. \<not> RemoveAllFails ?Eo (Name f'))
      \<and> \<lparr>Name = ''sha-net.lck'', Age = 18000000000000\<rparr> \<in> set [\<lparr>Name = ''sha-net.lck'', Age = 18000000000000\<rparr>]
      \<and> Name \<lparr>Name = ''sha-net.lck'', Age = 18000000000000\<rparr> = ''sha-net'' @ ''.lck''
      \<and> ParseDuration ?Eo ''4h'' \<le> Age \<lparr>Name = ''sha-net.lck'', Age = 18000000000000\<rparr>"
    by (simp add: cacheEnv0_def)
  have ni: "''4h'' \<noteq> inf" by (simp add: inf_def)
  note T0 = getNetwork_busy [where E = cacheEnv0 and fs = staleCache and sha = "''sha-net''"
      and keepTime = "''4h''", OF a]
  note Ty = getNetwork_busy [where E = ?Ey and fs = ?fs and sha = "''sha-net''"
      and keepTime = "''4h''" and owner = "''A''" and me = "''B''", OF ay]
  note To = getNetwork_busy [where E = ?Eo and fs = ?fs and sha = "''sha-net''"
      and keepTime = "''4h''" and me = "''B''"
      and f = "\<lparr>Name = ''sha-net.lck'', Age = 18000000000000\<rparr>"
      and files = "[\<lparr>Name = ''sha-net.lck'', Age = 18000000000000\<rparr>]", OF ao]
  have 1: "snd (getNetwork cacheEnv0 staleCache ''sha-net'' ''4h'') = (0, Return ([], Some ErrBusy))
     \<and> fst (getNetwork cacheEnv0 staleCache ''sha-net'' ''4h'') (cachePath ''sha-net'') = None"
    using T0 b by simp
  have "evicted ?Ey ?fs ''sha-net'' ''4h'' (lockPath ''sha-net'') = ?fs (lockPath ''sha-net'')"
    using Ty young by blast
  with Ty own have "getNetworkAs ''B'' ?Ey ?fs ''sha-net'' ''4h'' =
              ((evicted ?Ey ?fs ''sha-net'' ''4h'')(cachePath ''sha-net'' := None), 0,
               Return ([], Some ErrBusy))"
    by blast
  then have 2: "snd (getNetworkAs ''B'' ?Ey ?fs ''sha-net'' ''4h'') = (0, Return ([], Some ErrBusy))"
    by simp
  have "\<lparr>Name = ''sha-net.lck'', Age = 18000000000000\<rparr>
          \<in> set (fst (removeAllExcept ?Eo ''sha-net'' ''4h''))"
    using To listed by blast
  with listed ni have "evicted ?Eo ?fs ''sha-net'' ''4h'' (lockPath ''sha-net'') = None"
    using To by blast
  with To have 3: "fst (snd (getNetworkAs ''B'' ?Eo ?fs ''sha-net'' ''4h'')) = 1"
    by blast
  from 1 2 3 show ?thesis by simp
qed

text \<open>
  Claim C7 as stated fails for two attempts for the same identifier when the first
  has held the lock for as long as the retention duration. The first attempt, on an
  empty cache, acquires the lock and issues its download request. While it holds the
  lock, which is busy for the second process as the files stand, the second attempt
  evicts the five hours old lock file under the policy \<open>4h\<close>, acquires the lock, and
  downloads as well.
\<close>

theorem getNetwork_busy_counterexample:
  "fst (snd (getNetworkAs ''A'' (cacheEnv0\<lparr>ReadDir := Some []\<rparr>) Map.empty ''sha-net'' ''4h'')) = 1
   \<and> tryLockFile (holding Map.empty ''sha-net'' ''A'') ''sha-net'' ''B'' = Busy
   \<and> snd (getNetworkAs ''B''
        (cacheEnv0\<lparr>ReadDir := Some [\<lparr>Name = ''sha-net.lck'', Age = 18000000000000\<rparr>],
                    RemoveAllFails := (\<lambda>n. False)\<rparr>)
        (holding Map.empty ''sha-net'' ''A'') ''sha-net'' ''4h'')
       = (1, Return (cachePath ''sha-net'', None))"
  by (simp add: getNetworkAs_def getNetwork_def checkValidNetwork_def evicted_def tryLockFile_def
      holding_def lockPath_def cachePath_def unlink_def removeAllExcept_def cacheEnv0_def
      toyGunzip_def toyDigest_def Let_def inf_def)

subsection \<open>train\<close>

lemma worker_Return:
  "worker up gi = Return w \<longleftrightarrow> (fst w = gi \<and> uploaded up w)"
  by (cases "uploadGame (up gi) (fname gi)"; cases w)
     (auto simp: worker_def uploaded_def bindP_Return_iff)

lemma wgWait_Return:
  "wgWait up rn = Return ws \<Longrightarrow> map fst ws = rn \<and> (\<forall>w \<in> set ws. uploaded up w)"
proof (induction rn arbitrary: ws)
  case Nil
  then show ?case by simp
next
  case (Cons gi rn)
  from Cons.prems obtain w ws' where w: "worker up gi = Return w"
    and r: "wgWait up rn = Return ws'" and ws: "ws = w # ws'"
    by (auto simp: bindP_Return_iff)
  from Cons.IH [OF r] w ws show ?case by (simp add: worker_Return)
qed

lemma received_simps:
  "received (selects []) = []"
  "received (selects (Select SelRetry # steps)) = []"
  "received (selects (Select SelDone # steps)) = []"
  "received (selects (Select SelGiClosed # steps)) = []"
  "received (selects (Select (SelBestMove ok) # steps)) = received (selects steps)"
  "received (selects (Select (SelGi gi) # steps)) = gi # received (selects steps)"
  "received (selects (WorkerEnds k # steps)) = received (selects steps)"
  by (simp_all add: received_def selects_def looping_def)

lemma mset_without:
  "k < length rn \<Longrightarrow> mset rn = add_mset (rn ! k) (mset (take k rn @ drop (Suc k) rn))"
proof -
  assume "k < length rn"
  then have "rn = take k rn @ rn ! k # drop (Suc k) rn" by (rule id_take_nth_drop)
  then have "mset rn = mset (take k rn @ rn ! k # drop (Suc k) rn)" by simp
  then show ?thesis by simp
qed

lemma trainLoop_inv:
  "trainLoop fl dir up g pok td en rn steps = Return (Some r) \<Longrightarrow>
     mset (map fst (ended r)) + mset (running r)
       = mset (map fst en) + mset rn + mset (received (selects steps))
   \<and> (train_err r \<noteq> Some ''retry'' \<longrightarrow> running r = [])
   \<and> (\<forall>w \<in> set (ended r). w \<in> set en \<or> uploaded up w)
   \<and> (train_err r = None \<or> train_err r = Some ''retry''
        \<or> train_err r = Some ''Client self-exited without producing any games.'')"
proof (induction fl dir up g pok td en rn steps rule: trainLoop.induct)
  case (1 fl dir up g pok td en rn)
  then show ?case by simp
next
  case (2 fl dir up g pok td en rn steps)
  then show ?case by (auto simp: returning_def received_simps)
next
  case (3 fl dir up g pok td en rn steps)
  from "3.prems" obtain ws where w: "wgWait up rn = Return ws"
    and r: "returning None td (en @ ws) [] g = Return (Some r)"
    by (auto simp: bindP_Return_iff)
  from wgWait_Return [OF w] r show ?case by (auto simp: returning_def received_simps)
next
  case (4 fl dir up g pok td en rn ok steps)
  then show ?case by (simp add: received_simps)
next
  case (5 fl dir up g pok td en rn gi steps)
  from "5.IH" "5.prems" show ?case by (simp add: received_simps)
next
  case (6 fl dir up g pok td en rn steps)
  show ?case
  proof (cases "revokeOnClose fl g")
    case True
    with "6.prems" show ?thesis by (auto simp: returning_def received_simps)
  next
    case False
    with "6.prems" obtain ws where w: "wgWait up rn = Return ws"
      and r: "returning (if pok then None
                         else Some ''Client self-exited without producing any games.'')
                td (en @ ws) [] g = Return (Some r)"
      by (auto simp: bindP_Return_iff)
    from wgWait_Return [OF w] r show ?thesis
      by (cases pok) (auto simp: returning_def received_simps)
  qed
next
  case (7 fl dir up g pok td en rn k steps)
  show ?case
  proof (cases "k < length rn")
    case True
    with "7.prems" obtain w where w: "worker up (rn ! k) = Return w"
      and r: "trainLoop fl dir up g pok td (en @ [w]) (take k rn @ drop (Suc k) rn) steps
                = Return (Some r)"
      by (auto simp: bindP_Return_iff)
    from w have fw: "fst w = rn ! k" and uw: "uploaded up w" by (simp_all add: worker_Return)
    from "7.IH"(1) [OF True r] fw uw mset_without [OF True]
    show ?thesis by (auto simp: received_simps)
  next
    case False
    with "7.IH"(2) "7.prems" show ?thesis by (simp add: received_simps)
  qed
qed

lemma worker_total:
  "\<exists>e. snd (uploadGame (up gi) (fname gi)) = Return e \<Longrightarrow> \<exists>w. worker up gi = Return w"
  by (cases "uploadGame (up gi) (fname gi)") (auto simp: worker_def)

lemma wgWait_total:
  "\<forall>gi. \<exists>e. snd (uploadGame (up gi) (fname gi)) = Return e \<Longrightarrow> \<exists>ws. wgWait up rn = Return ws"
proof (induction rn)
  case Nil
  show ?case by simp
next
  case (Cons gi rn)
  from Cons.prems worker_total [of up gi] obtain w where "worker up gi = Return w" by blast
  moreover from Cons.IH [OF Cons.prems] obtain ws where "wgWait up rn = Return ws" by blast
  ultimately show ?case by simp
qed

lemma trainLoop_indep:
  "trainLoop fl dir up g pok td en rn steps = Return (Some r) \<Longrightarrow>
   \<forall>gi. \<exists>e. snd (uploadGame (up' gi) (fname gi)) = Return e \<Longrightarrow>
   \<exists>r'. trainLoop fl dir up' g pok td en' rn steps = Return (Some r')
        \<and> train_err r' = train_err r \<and> running r' = running r
        \<and> removedDir r' = removedDir r \<and> train_globals r' = train_globals r"
proof (induction fl dir up g pok td en rn steps arbitrary: en' rule: trainLoop.induct)
  case (1 fl dir up g pok td en rn)
  then show ?case by simp
next
  case (2 fl dir up g pok td en rn steps)
  then show ?case by (auto simp: returning_def)
next
  case (3 fl dir up g pok td en rn steps)
  from wgWait_total [OF "3.prems"(2), of rn] obtain ws' where "wgWait up' rn = Return ws'" by blast
  with "3.prems"(1) show ?case by (auto simp: returning_def bindP_Return_iff)
next
  case (4 fl dir up g pok td en rn ok steps)
  then show ?case by simp
next
  case (5 fl dir up g pok td en rn gi steps)
  from "5.IH" [of en'] "5.prems" show ?case by simp
next
  case (6 fl dir up g pok td en rn steps)
  from wgWait_total [OF "6.prems"(2), of rn] obtain ws' where "wgWait up' rn = Return ws'" by blast
  with "6.prems"(1) show ?case
    by (cases "revokeOnClose fl g") (auto simp: returning_def bindP_Return_iff)
next
  case (7 fl dir up g pok td en rn k steps)
  show ?case
  proof (cases "k < length rn")
    case True
    with "7.prems"(1) obtain w where w: "worker up (rn ! k) = Return w"
      and r: "trainLoop fl dir up g pok td (en @ [w]) (take k rn @ drop (Suc k) rn) steps
                = Return (Some r)"
      by (auto simp: bindP_Return_iff)
    from "7.prems"(2) worker_total [of up' "rn ! k"] obtain w' where w': "worker up' (rn ! k) = Return w'"
      by blast
    from "7.IH"(1) [OF True r "7.prems"(2), of "en' @ [w']"] True w' show ?thesis by simp
  next
    case False
    with "7.IH"(2) [of en'] "7.prems" show ?thesis by simp
  qed
qed

lemma uploadGame_outcome:
  "(\<exists>e. snd (uploadGame env path) = Return e)
   \<or> snd (uploadGame env path) = Fatal ''You probably need the latest release''"
  by (simp add: uploadGame_def uploadLoop_0 uploadLoop_1 uploadLoop_2 split: attempt.splits)

lemma worker_Fatal:
  "snd (uploadGame (up gi) (fname gi)) = Fatal m \<Longrightarrow> worker up gi = Fatal m"
  by (cases "uploadGame (up gi) (fname gi)") (simp add: worker_def)

lemma worker_outcome:
  "(\<exists>w. worker up gi = Return w) \<or> worker up gi = Fatal ''You probably need the latest release''"
  using uploadGame_outcome [of "up gi" "fname gi"]
  by (cases "uploadGame (up gi) (fname gi)") (auto simp: worker_def)

lemma wgWait_Fatal:
  "gi \<in> set rn \<Longrightarrow> snd (uploadGame (up gi) (fname gi)) = Fatal m \<Longrightarrow>
     wgWait up rn = Fatal ''You probably need the latest release''"
proof (induction rn)
  case Nil
  then show ?case by simp
next
  case (Cons a rn)
  show ?case
  proof (cases "worker up a")
    case (Return w)
    with Cons.prems worker_Fatal [of up gi m] have "gi \<in> set rn" by auto
    from Cons.IH [OF this Cons.prems(2)] Return show ?thesis by simp
  next
    case (Fatal x)
    with worker_outcome [of up a] show ?thesis by simp
  next
    case (Exit x)
    with worker_outcome [of up a] show ?thesis by simp
  next
    case (Panic x)
    with worker_outcome [of up a] show ?thesis by simp
  qed
qed

text \<open>
  Claim C8, as the code has it. When \<open>train\<close> returns with an error other than the
  retry error (with nil, that is, or with the self-exit error), it has passed
  \<open>wg.Wait()\<close>: no worker is still running, and for every game received before the
  loop ended a worker has come to its end, \<open>uploadGame\<close> having returned for it. When
  it returns the retry error it has not waited, and workers may still be running. In
  both cases the workers, ended or running, are one for each game received. The error
  that \<open>train\<close> returns is nil, the retry error or the self-exit error, never the
  error of an upload: what \<open>uploadGame\<close> returns is dropped, and with uploads that
  meet anything else, short of the version rejection, \<open>train\<close> returns the same error.
  An upload that the server rejects for its version does not return: \<open>log.Fatal\<close>
  ends the process, in the worker, and so in a \<open>wg.Wait()\<close> that waits for it.
\<close>

theorem train_join_and_result:
  "(train run ok fl dir up g exe np onp params steps = Return (Some r) \<longrightarrow>
      (train_err r \<noteq> Some ''retry'' \<longrightarrow>
         running r = []
       \<and> (\<forall>gi \<in> set (received (selects steps)).
             \<exists>evs e. uploadGame (up gi) (fname gi) = (evs, Return e) \<and> (gi, evs, e) \<in> set (ended r)))
    \<and> mset (map fst (ended r)) + mset (running r) = mset (received (selects steps))
    \<and> (\<forall>w \<in> set (ended r). uploaded up w)
    \<and> (train_err r = None \<or> train_err r = Some ''retry''
         \<or> train_err r = Some ''Client self-exited without producing any games.'')
    \<and> ((\<forall>gi. \<exists>e. snd (uploadGame (up' gi) (fname gi)) = Return e) \<longrightarrow>
          (\<exists>r'. train run ok fl dir up' g exe np onp params steps = Return (Some r')
                \<and> train_err r' = train_err r \<and> running r' = running r
                \<and> removedDir r' = removedDir r)))
   \<and> (snd (uploadGame (up gi) (fname gi)) = Fatal m \<longrightarrow>
         worker up gi = Fatal m
       \<and> (gi \<in> set rn \<longrightarrow> wgWait up rn = Fatal ''You probably need the latest release''))"
proof -
  have 1: "(train_err r \<noteq> Some ''retry'' \<longrightarrow>
         running r = []
       \<and> (\<forall>gi \<in> set (received (selects steps)).
             \<exists>evs e. uploadGame (up gi) (fname gi) = (evs, Return e) \<and> (gi, evs, e) \<in> set (ended r)))
    \<and> mset (map fst (ended r)) + mset (running r) = mset (received (selects steps))
    \<and> (\<forall>w \<in> set (ended r). uploaded up w)
    \<and> (train_err r = None \<or> train_err r = Some ''retry''
         \<or> train_err r = Some ''Client self-exited without producing any games.'')
    \<and> ((\<forall>gi. \<exists>e. snd (uploadGame (up' gi) (fname gi)) = Return e) \<longrightarrow>
          (\<exists>r'. train run ok fl dir up' g exe np onp params steps = Return (Some r')
                \<and> train_err r' = train_err r \<and> running r' = running r
                \<and> removedDir r' = removedDir r))"
    if t: "train run ok fl dir up g exe np onp params steps = Return (Some r)"
  proof -
    from t obtain argv g' where
      l: "launch run ok fl g exe np onp ([''selfplay''] @ params @ [''--training=true'']) = Return (argv, g')"
      and tl: "trainLoop fl dir up g' False [] [] [] steps = Return (Some r)"
      by (auto simp: train_def bindP_Return_iff)
    from trainLoop_inv [OF tl]
    have m: "mset (map fst (ended r)) + mset (running r) = mset (received (selects steps))"
      and j: "train_err r \<noteq> Some ''retry'' \<longrightarrow> running r = []"
      and u: "\<forall>w \<in> set (ended r). uploaded up w"
      and e: "train_err r = None \<or> train_err r = Some ''retry''
         \<or> train_err r = Some ''Client self-exited without producing any games.''"
      by simp_all
    have a: "\<exists>evs e. uploadGame (up gi) (fname gi) = (evs, Return e) \<and> (gi, evs, e) \<in> set (ended r)"
      if nr: "train_err r \<noteq> Some ''retry''" and gi: "gi \<in> set (received (selects steps))" for gi
    proof -
      from j nr m have "mset (map fst (ended r)) = mset (received (selects steps))" by simp
      then have "set (map fst (ended r)) = set (received (selects steps))" by (rule mset_eq_setD)
      with gi have "gi \<in> fst ` set (ended r)" by simp
      then obtain w where w: "w \<in> set (ended r)" and f: "fst w = gi" by (auto simp: image_iff)
      from u w have "uploaded up w" by blast
      with f have "uploadGame (up gi) (fname gi) = (fst (snd w), Return (snd (snd w)))"
        by (simp add: uploaded_def)
      moreover from w f have "(gi, fst (snd w), snd (snd w)) \<in> set (ended r)" by (cases w) auto
      ultimately show ?thesis by blast
    qed
    have i: "\<exists>r'. train run ok fl dir up' g exe np onp params steps = Return (Some r')
                \<and> train_err r' = train_err r \<and> running r' = running r
                \<and> removedDir r' = removedDir r"
      if h: "\<forall>gi. \<exists>e. snd (uploadGame (up' gi) (fname gi)) = Return e"
      using trainLoop_indep [OF tl h, of "[]"] l by (auto simp: train_def)
    from m j u e a i show ?thesis by blast
  qed
  have 2: "worker up gi = Fatal m
       \<and> (gi \<in> set rn \<longrightarrow> wgWait up rn = Fatal ''You probably need the latest release'')"
    if "snd (uploadGame (up gi) (fname gi)) = Fatal m"
    using that worker_Fatal [of up gi m] wgWait_Fatal [of gi rn up m] by blast
  from 1 2 show ?thesis by blast
qed

text \<open>
  The theorem on a session that produces one game and then closes its output: with
  every upload attempt failing, \<open>train\<close> returns nil after the worker has ended with
  "Too many retries"; with the upload accepted, it returns nil as well; with the
  upload rejected for the version, the process ends.
\<close>

theorem train_join_and_result_witness:
  "train (\<lambda>a. None) True flags0 toyDir failing initGlobals ''/lc0'' ''net'' [] []
       [Select (SelGi (game0 ''white'' ''whitewon'')), Select SelGiClosed]
     = Return (Some \<lparr>train_err = None,
         ended = [(game0 ''white'' ''whitewon'',
                   [UpRequest 1, UpSleep 4000000000, UpRequest 2, UpSleep 8000000000,
                    UpRequest 3, UpSleep 16000000000],
                   Some ''UploadGame failed: Too many retries'')],
         running = [], removedDir = Some ''d'',
         train_globals = initGlobals\<lparr>testedCudnnFp16 := True\<rparr>\<rparr>)
   \<and> (\<exists>r'. train (\<lambda>a. None) True flags0 toyDir (\<lambda>gi n. Response 200 []) initGlobals ''/lc0'' ''net'' [] []
               [Select (SelGi (game0 ''white'' ''whitewon'')), Select SelGiClosed] = Return (Some r')
            \<and> train_err r' = None \<and> running r' = [] \<and> removedDir r' = Some ''d'')
   \<and> uploadGame (failing (game0 ''white'' ''whitewon'')) (fname (game0 ''white'' ''whitewon''))
       = ([UpRequest 1, UpSleep 4000000000, UpRequest 2, UpSleep 8000000000,
           UpRequest 3, UpSleep 16000000000],
          Return (Some ''UploadGame failed: Too many retries''))
   \<and> worker rejecting (game0 ''white'' ''whitewon'') = Fatal ''You probably need the latest release''
   \<and> wgWait rejecting [game0 ''white'' ''whitewon''] = Fatal ''You probably need the latest release''
   \<and> train (\<lambda>a. None) True flags0 toyDir rejecting initGlobals ''/lc0'' ''net'' [] []
       [Select (SelGi (game0 ''white'' ''whitewon'')), Select SelGiClosed]
     = Fatal ''You probably need the latest release''"
proof -
  let ?G = "game0 ''white'' ''whitewon''"
  let ?steps = "[Select (SelGi ?G), Select SelGiClosed]"
  let ?tr = "[UpRequest 1, UpSleep 4000000000, UpRequest 2, UpSleep 8000000000,
              UpRequest 3, UpSleep 16000000000]"
  let ?r = "\<lparr>train_err = None,
         ended = [(?G, ?tr, Some ''UploadGame failed: Too many retries'')],
         running = [], removedDir = Some ''d'',
         train_globals = initGlobals\<lparr>testedCudnnFp16 := True\<rparr>\<rparr>"
  have u: "uploadGame (failing ?G) (fname ?G)
     = (?tr, Return (Some ''UploadGame failed: Too many retries''))"
    by (simp add: uploadGame_unfold failing_def)
  have d: "toyDir (fname ?G) = ''d''" by (simp add: toyDir_def game0_def)
  have tl: "trainLoop flags0 toyDir failing initGlobals False [] [] [] ?steps = Return (Some ?r)"
    by (simp add: u d worker_def returning_def selectGlobals_def revokeOnClose_def initGlobals_def)
  have l: "launch (\<lambda>a. None) True flags0 initGlobals ''/lc0'' ''net'' []
             ([''selfplay''] @ [] @ [''--training=true''])
           = Return ([''/lc0'', ''selfplay'', ''--training=true'', ''--weights=net''], initGlobals)"
    by code_simp
  have t: "train (\<lambda>a. None) True flags0 toyDir failing initGlobals ''/lc0'' ''net'' [] [] ?steps
             = Return (Some ?r)"
    unfolding train_def l using tl by simp
  have ok: "\<forall>gi. \<exists>e. snd (uploadGame ((\<lambda>gi n. Response 200 []) gi) (fname gi)) = Return e"
    by (simp add: uploadGame_unfold)
  have rj: "snd (uploadGame (rejecting ?G) (fname ?G)) = Fatal ''You probably need the latest release''"
    by (simp add: uploadGame_unfold rejecting_def)
  have rw: "worker rejecting ?G = Fatal ''You probably need the latest release''"
    by (simp add: worker_def uploadGame_unfold rejecting_def)
  have tf: "train (\<lambda>a. None) True flags0 toyDir rejecting initGlobals ''/lc0'' ''net'' [] [] ?steps
              = Fatal ''You probably need the latest release''"
    unfolding train_def l
    by (simp add: rw selectGlobals_def revokeOnClose_def initGlobals_def)
  note T = train_join_and_result [where run = "\<lambda>a. None" and ok = True and fl = flags0
      and dir = toyDir and up = failing and g = initGlobals and exe = "''/lc0''" and np = "''net''"
      and onp = "[]" and params = "[]" and steps = ?steps and r = ?r
      and up' = "\<lambda>gi n. Response 200 []"]
  note T' = train_join_and_result [where up = rejecting and gi = ?G
      and m = "''You probably need the latest release''" and rn = "[?G]"]
  have rc: "?G \<in> set (received (selects ?steps))"
    by (simp add: received_def selects_def looping_def)
  have nr: "train_err ?r \<noteq> Some ''retry''" by simp
  have a: "\<exists>r'. train (\<lambda>a. None) True flags0 toyDir (\<lambda>gi n. Response 200 []) initGlobals ''/lc0'' ''net'' [] []
               ?steps = Return (Some r')
            \<and> train_err r' = train_err ?r \<and> running r' = running ?r \<and> removedDir r' = removedDir ?r"
    using T t ok by blast
  have b: "\<exists>evs e. uploadGame (failing ?G) (fname ?G) = (evs, Return e) \<and> (?G, evs, e) \<in> set (ended ?r)"
    using T t nr rc by blast
  have c: "worker rejecting ?G = Fatal ''You probably need the latest release''
           \<and> wgWait rejecting [?G] = Fatal ''You probably need the latest release''"
    using T' rj by simp
  from t a b c tf u show ?thesis by simp
qed

text \<open>
  Claim C8 as stated fails on a session that produces one game whose upload
  exhausts its retries and then closes its output: \<open>train\<close> returns nil, and the
  "Too many retries" error of the worker reaches nobody. And when the retry signal
  arrives after a game, \<open>train\<close> returns while the worker of that game is still
  running.
\<close>

theorem train_upload_failure_counterexample:
  "train (\<lambda>a. None) True flags0 toyDir failing initGlobals ''/lc0'' ''net'' [] []
       [Select (SelGi (game0 ''white'' ''whitewon'')), Select SelGiClosed]
     = Return (Some \<lparr>train_err = None,
         ended = [(game0 ''white'' ''whitewon'',
                   [UpRequest 1, UpSleep 4000000000, UpRequest 2, UpSleep 8000000000,
                    UpRequest 3, UpSleep 16000000000],
                   Some ''UploadGame failed: Too many retries'')],
         running = [], removedDir = Some ''d'',
         train_globals = initGlobals\<lparr>testedCudnnFp16 := True\<rparr>\<rparr>)
   \<and> train (\<lambda>a. None) True flags0 toyDir failing initGlobals ''/lc0'' ''net'' [] []
       [Select (SelGi (game0 ''white'' ''whitewon'')), Select SelRetry]
     = Return (Some \<lparr>train_err = Some ''retry'', ended = [],
         running = [game0 ''white'' ''whitewon''], removedDir = Some ''d'',
         train_globals = initGlobals\<lparr>testedCudnnFp16 := True\<rparr>\<rparr>)"
proof -
  have l: "launch (\<lambda>a. None) True flags0 initGlobals ''/lc0'' ''net'' []
             ([''selfplay''] @ [] @ [''--training=true''])
           = Return ([''/lc0'', ''selfplay'', ''--training=true'', ''--weights=net''], initGlobals)"
    by code_simp
  have d: "toyDir (fname (game0 ''white'' ''whitewon'')) = ''d''" by (simp add: toyDir_def game0_def)
  show ?thesis
    unfolding train_def l
    by (simp add: d worker_def uploadGame_unfold failing_def returning_def selectGlobals_def
        revokeOnClose_def initGlobals_def)
qed

end
